theory Spec2Isabelle
  imports Main "HOL-Library.Word"
begin

section \<open>JavaScript strings\<close>

text \<open>
  The server (\<^verbatim>\<open>src/server.js\<close>) works on JavaScript strings. A string is modelled as a
  \<^typ>\<open>string\<close>, one \<^typ>\<open>char\<close> per code unit; only code units below 256 can be
  written down, which covers every literal and every pattern of the server.
\<close>

definition is_space :: "char \<Rightarrow> bool" where
  \<comment> \<open>what \<^verbatim>\<open>\s\<close> and \<^verbatim>\<open>trim()\<close> take for white space, below 256\<close>
  "is_space c =
     (c \<in> set [CHR 0x09, CHR 0x0A, CHR 0x0B, CHR 0x0C, CHR 0x0D, CHR 0x20, CHR 0xA0])"

definition trim :: "string \<Rightarrow> string" where
  "trim s = rev (dropWhile is_space (rev (dropWhile is_space s)))"

definition startsWith :: "string \<Rightarrow> string \<Rightarrow> bool" where
  "startsWith s p = (take (length p) s = p)"

definition endsWith :: "string \<Rightarrow> string \<Rightarrow> bool" where
  "endsWith s p = (length p \<le> length s \<and> drop (length s - length p) s = p)"

fun str_includes :: "string \<Rightarrow> string \<Rightarrow> bool" where
  "str_includes [] p = (p = [])"
| "str_includes (c # cs) p = (startsWith (c # cs) p \<or> str_includes cs p)"

definition lower_char :: "char \<Rightarrow> char" where
  "lower_char c =
     (let n = (of_char c :: nat)
      in if (65 \<le> n \<and> n \<le> 90) \<or> (192 \<le> n \<and> n \<le> 222 \<and> n \<noteq> 215)
         then char_of (n + 32) else c)"

definition toLowerCase :: "string \<Rightarrow> string" where
  "toLowerCase s = map lower_char s"

definition to_https :: "string \<Rightarrow> string" where
  \<comment> \<open>\<^verbatim>\<open>s.replace(/^http:\/\//, "https://")\<close>\<close>
  "to_https s = (if startsWith s ''http://'' then ''https://'' @ drop 7 s else s)"

fun squash_spaces :: "bool \<Rightarrow> string \<Rightarrow> string" where
  \<comment> \<open>\<^verbatim>\<open>s.replace(/\s+/g, "_")\<close>; the flag says that the run of white space being read
      has already been replaced\<close>
  "squash_spaces _ [] = []"
| "squash_spaces inside (c # cs) =
     (if is_space c then (if inside then squash_spaces True cs
                          else CHR ''_'' # squash_spaces True cs)
      else c # squash_spaces False cs)"

definition safe_char :: "char \<Rightarrow> char" where
  \<comment> \<open>one step of \<^verbatim>\<open>s.replace(/[^a-z0-9._-]/g, "-")\<close>\<close>
  "safe_char c =
     (if c \<in> set ''abcdefghijklmnopqrstuvwxyz0123456789._-'' then c else CHR ''-'')"

definition digit_char :: "nat \<Rightarrow> char" where
  "digit_char d = char_of (48 + d)"

fun show_nat :: "nat \<Rightarrow> string" where
  \<comment> \<open>a non-negative integer inside a template literal\<close>
  "show_nat n = (if n < 10 then [digit_char n] else show_nat (n div 10) @ [digit_char (n mod 10)])"

declare show_nat.simps [simp del]

fun split_on :: "char \<Rightarrow> string \<Rightarrow> string list" where
  \<comment> \<open>\<^verbatim>\<open>s.split(c)\<close> for a one-character separator\<close>
  "split_on c [] = [[]]"
| "split_on c (x # xs) =
     (if x = c then [] # split_on c xs
      else (case split_on c xs of [] \<Rightarrow> [[x]] | p # ps \<Rightarrow> (x # p) # ps))"

fun join :: "string \<Rightarrow> string list \<Rightarrow> string" where
  \<comment> \<open>\<^verbatim>\<open>xs.join(sep)\<close> on an array of strings\<close>
  "join sep [] = []"
| "join sep [x] = x"
| "join sep (x # y # ys) = x @ sep @ join sep (y # ys)"

section \<open>JavaScript values\<close>

text \<open>
  What \<^verbatim>\<open>JSON.parse\<close> yields, and \<^verbatim>\<open>undefined\<close>. A number is carried as the text that
  \<^verbatim>\<open>String(n)\<close> gives for it: the server never computes with a number of a response, it
  only tests it for truth and prints it. An object is the list of its own properties.
\<close>

datatype js_value =
    JUndefined
  | JNull
  | JBool bool
  | JNum string
  | JStr string
  | JArr "js_value list"
  | JObj "(string \<times> js_value) list"

datatype exn = Error string | TypeError string | SyntaxError string | FetchError string
  \<comment> \<open>what is thrown, with its message. The message of a \<open>TypeError\<close> is the engine's:
      it is given as V8 words it, and no statement below rests on it.\<close>

fun message :: "exn \<Rightarrow> string" where
  "message (Error m) = m"
| "message (TypeError m) = m"
| "message (SyntaxError m) = m"
| "message (FetchError m) = m"

fun truthy :: "js_value \<Rightarrow> bool" where
  "truthy JUndefined = False"
| "truthy JNull = False"
| "truthy (JBool b) = b"
| "truthy (JNum n) = (n \<noteq> ''0'' \<and> n \<noteq> ''NaN'')"
| "truthy (JStr s) = (s \<noteq> [])"
| "truthy (JArr _) = True"
| "truthy (JObj _) = True"

fun nullish :: "js_value \<Rightarrow> bool" where
  "nullish JUndefined = True"
| "nullish JNull = True"
| "nullish _ = False"

definition or_else :: "js_value \<Rightarrow> js_value \<Rightarrow> js_value" where
  \<comment> \<open>\<^verbatim>\<open>a || b\<close>\<close>
  "or_else a b = (if truthy a then a else b)"

fun own_prop :: "js_value \<Rightarrow> string \<Rightarrow> js_value" where
  \<comment> \<open>\<^verbatim>\<open>v?.k\<close>. The keys the server reads (\<^verbatim>\<open>url\<close>, \<^verbatim>\<open>secure_url\<close>, \<^verbatim>\<open>data\<close>, \<^verbatim>\<open>id\<close>,
      \<^verbatim>\<open>status\<close>, \<^verbatim>\<open>error\<close>, \<^verbatim>\<open>output\<close>, \<^verbatim>\<open>logs\<close>) are on no prototype, so only an object's own
      properties answer.\<close>
  "own_prop (JObj kvs) k = (case map_of kvs k of None \<Rightarrow> JUndefined | Some v \<Rightarrow> v)"
| "own_prop _ k = JUndefined"

definition get_prop :: "js_value \<Rightarrow> string \<Rightarrow> exn + js_value" where
  \<comment> \<open>\<^verbatim>\<open>v.k\<close>: reading a property of \<^verbatim>\<open>null\<close> or \<^verbatim>\<open>undefined\<close> throws\<close>
  "get_prop v k =
     (if nullish v
      then Inl (TypeError (''Cannot read properties of ''
                  @ (if v = JNull then ''null'' else ''undefined'')
                  @ '' (reading '' @ [CHR 0x27] @ k @ [CHR 0x27] @ '')''))
      else Inr (own_prop v k))"

fun to_string :: "js_value \<Rightarrow> string option"
  and join_values :: "js_value list \<Rightarrow> string option" where
  \<comment> \<open>\<^verbatim>\<open>String(v)\<close> and \<^verbatim>\<open>`${v}`\<close>; \<open>None\<close> when the conversion throws a TypeError, as it
      does for an object with an own property \<^verbatim>\<open>toString\<close> (which, coming from JSON, is
      not a function)\<close>
  "to_string JUndefined = Some ''undefined''"
| "to_string JNull = Some ''null''"
| "to_string (JBool b) = Some (if b then ''true'' else ''false'')"
| "to_string (JNum n) = Some n"
| "to_string (JStr s) = Some s"
| "to_string (JArr xs) = join_values xs"
| "to_string (JObj kvs) =
     (if map_of kvs ''toString'' = None then Some ''[object Object]'' else None)"
| "join_values [] = Some []"
| "join_values (x # xs) =
     (case (if nullish x then Some [] else to_string x) of
        None \<Rightarrow> None
      | Some a \<Rightarrow>
          (if xs = [] then Some a
           else (case join_values xs of None \<Rightarrow> None | Some b \<Rightarrow> Some (a @ '','' @ b))))"

definition unprintable :: exn where
  "unprintable = TypeError ''Cannot convert object to primitive value''"

section \<open>The network, the clock and the console\<close>

text \<open>
  Everything outside the process is a parameter. A \<open>world\<close> answers the \<open>i\<close>-th call of
  \<^verbatim>\<open>fetch\<close> of a run, given the request, and says how many milliseconds that call takes.
  A response carries its status and what \<^verbatim>\<open>resp.text()\<close> and \<^verbatim>\<open>resp.json()\<close> resolve to
  or reject with; the server reads the body of a response once. \<^verbatim>\<open>Date.now()\<close> is the
  field \<open>now\<close> of the state: it advances by the time a \<^verbatim>\<open>fetch\<close> takes and by the
  delay of a \<^verbatim>\<open>setTimeout\<close>, and by nothing else. The state also keeps, in order, every
  request sent, every pause and every console call, and the lines handed to \<^verbatim>\<open>onLog\<close>.
\<close>

type_synonym bytes = "8 word list"

datatype form_part = Field string | FilePart bytes string string

datatype payload = NoBody | Form "(string \<times> form_part) list" | Raw bytes | JsonText js_value

record request =
  req_method :: string
  req_url :: string
  req_headers :: "(string \<times> string) list"
  req_body :: payload

record http_res =
  res_status :: nat
  res_text :: "exn + string"
  res_json :: "exn + js_value"

datatype response = Rejected exn | Response http_res

datatype level = Log | Warn | Err

datatype console_arg = Val js_value | Thrown exn

datatype event = Fetch request | Sleep nat | Console level "console_arg list"

record world =
  net :: "nat \<Rightarrow> request \<Rightarrow> response"
  took :: "nat \<Rightarrow> nat"

record state =
  trace :: "event list"
  fetched :: nat
  now :: nat
  sink :: "string list"

definition fetch :: "world \<Rightarrow> request \<Rightarrow> state \<Rightarrow> response \<times> state" where
  "fetch w r s =
     (net w (fetched s) r,
      s\<lparr>trace := trace s @ [Fetch r], fetched := Suc (fetched s),
        now := now s + took w (fetched s)\<rparr>)"

definition console :: "level \<Rightarrow> console_arg list \<Rightarrow> state \<Rightarrow> state" where
  "console l args s = s\<lparr>trace := trace s @ [Console l args]\<rparr>"

definition sleep :: "nat \<Rightarrow> state \<Rightarrow> state" where
  \<comment> \<open>\<^verbatim>\<open>await new Promise((r) => setTimeout(r, ms))\<close>\<close>
  "sleep ms s = s\<lparr>trace := trace s @ [Sleep ms], now := now s + ms\<rparr>"

definition onLog :: "string \<Rightarrow> state \<Rightarrow> state" where
  "onLog m s = s\<lparr>sink := sink s @ [m]\<rparr>"

definition ok :: "http_res \<Rightarrow> bool" where
  \<comment> \<open>\<^verbatim>\<open>resp.ok\<close>\<close>
  "ok r = (200 \<le> res_status r \<and> res_status r \<le> 299)"

definition text_or_empty :: "http_res \<Rightarrow> string" where
  \<comment> \<open>\<^verbatim>\<open>await resp.text().catch(() => "")\<close>\<close>
  "text_or_empty r = (case res_text r of Inl _ \<Rightarrow> [] | Inr t \<Rightarrow> t)"

definition json_or_empty :: "http_res \<Rightarrow> js_value" where
  \<comment> \<open>\<^verbatim>\<open>await resp.json().catch(() => ({}))\<close>\<close>
  "json_or_empty r = (case res_json r of Inl _ \<Rightarrow> JObj [] | Inr j \<Rightarrow> j)"

definition requests :: "state \<Rightarrow> request list" where
  \<comment> \<open>the requests sent so far, oldest first\<close>
  "requests s = concat (map (\<lambda>e. case e of Fetch r \<Rightarrow> [r] | _ \<Rightarrow> []) (trace s))"

section \<open>Configuration\<close>

record config =
  REPLICATE_API_TOKEN :: "string option"
  REPLICATE_MODEL_VERSION :: "string option"
  CLOUDINARY_CLOUD_NAME :: string
  CLOUDINARY_UPLOAD_PRESET :: string

definition present :: "string option \<Rightarrow> bool" where
  \<comment> \<open>the truth value of an environment variable: set, and not the empty string\<close>
  "present v = (case v of None \<Rightarrow> False | Some s \<Rightarrow> s \<noteq> [])"

definition str_or :: "string option \<Rightarrow> string \<Rightarrow> string" where
  \<comment> \<open>\<^verbatim>\<open>v || d\<close> for a string that may be undefined\<close>
  "str_or v d = (case v of None \<Rightarrow> d | Some s \<Rightarrow> if s = [] then d else s)"

definition template :: "string option \<Rightarrow> string" where
  \<comment> \<open>\<^verbatim>\<open>`${v}`\<close> for a string that may be undefined or null\<close>
  "template v = (case v of None \<Rightarrow> ''undefined'' | Some s \<Rightarrow> s)"

record parsed =
  model :: "string option"
  version :: "string option"

definition truthy_str :: "string option \<Rightarrow> string option" where
  \<comment> \<open>\<^verbatim>\<open>v || null\<close>\<close>
  "truthy_str v = (if present v then v else None)"

definition nth_opt :: "'a list \<Rightarrow> nat \<Rightarrow> 'a option" where
  \<comment> \<open>\<^verbatim>\<open>xs[i]\<close>, undefined out of range\<close>
  "nth_opt xs i = (if i < length xs then Some (xs ! i) else None)"

definition parseReplicateModelVersion :: "string option \<Rightarrow> parsed" where
  "parseReplicateModelVersion val =
     (case val of
        None \<Rightarrow> \<lparr>model = None, version = None\<rparr>
      | Some v \<Rightarrow>
          if v = [] then \<lparr>model = None, version = None\<rparr>
          else if CHR '':'' \<in> set v
          then (let pieces = split_on CHR '':'' v
                in \<lparr>model = truthy_str (nth_opt pieces 0),
                    version = truthy_str (nth_opt pieces 1)\<rparr>)
          else \<lparr>model = None, version = Some v\<rparr>)"

definition REPLICATE_MODEL_SLUG :: "config \<Rightarrow> string option" where
  "REPLICATE_MODEL_SLUG c = model (parseReplicateModelVersion (REPLICATE_MODEL_VERSION c))"

definition REPLICATE_VERSION_ID :: "config \<Rightarrow> string option" where
  "REPLICATE_VERSION_ID c = version (parseReplicateModelVersion (REPLICATE_MODEL_VERSION c))"

section \<open>The upload chain\<close>

text \<open>
  \<^verbatim>\<open>uploadToReplicate(fileBuffer, filename)\<close>, lines 69 to 191 of \<^verbatim>\<open>src/server.js\<close>: four
  \<^verbatim>\<open>try\<close> blocks in a row, each sending one request. A block ends in one of three ways:
  it returns a URL (and the function returns), it falls through after a warning, or
  it throws and its \<^verbatim>\<open>catch\<close> logs the error. \<open>attempt\<close> names the three.
\<close>

datatype attempt = Returned string | Warned "console_arg list" | Caught exn

definition settle :: "string \<Rightarrow> attempt \<Rightarrow> state \<Rightarrow> string option \<times> state" where
  \<comment> \<open>the console call each ending makes; \<open>Some\<close> is the \<^verbatim>\<open>return\<close> of the function\<close>
  "settle name a s =
     (case a of
        Returned u \<Rightarrow>
          (Some u, console Log [Val (JStr (name @ '' upload ok ->'')), Val (JStr u)] s)
      | Warned args \<Rightarrow> (None, console Warn args s)
      | Caught e \<Rightarrow>
          (None, console Err [Val (JStr (name @ '' upload error:'')),
                              (if message e \<noteq> [] then Val (JStr (message e)) else Thrown e)] s))"

definition contentType :: "string option \<Rightarrow> string" where
  "contentType filename =
     (let lower = toLowerCase (str_or filename [])
      in if endsWith lower ''.mov'' then ''video/quicktime''
         else if endsWith lower ''.mp4'' then ''video/mp4''
         else ''video/mp4'')"

definition form_headers :: "(string \<times> string) list" where
  \<comment> \<open>\<^verbatim>\<open>fd.getHeaders()\<close>, without the boundary parameter, which is drawn at random\<close>
  "form_headers = [(''content-type'', ''multipart/form-data'')]"

definition file_part :: "bytes \<Rightarrow> string option \<Rightarrow> form_part" where
  "file_part fileBuffer filename =
     FilePart fileBuffer (str_or filename ''upload.mp4'') (contentType filename)"

subsection \<open>Cloudinary (lines 78 to 106)\<close>

definition cloudinary_configured :: "config \<Rightarrow> bool" where
  "cloudinary_configured c = (CLOUDINARY_CLOUD_NAME c \<noteq> [] \<and> CLOUDINARY_UPLOAD_PRESET c \<noteq> [])"

definition cloudinary_request :: "config \<Rightarrow> bytes \<Rightarrow> string option \<Rightarrow> request" where
  "cloudinary_request c fileBuffer filename =
     \<lparr>req_method = ''POST'',
      req_url = ''https://api.cloudinary.com/v1_1/'' @ CLOUDINARY_CLOUD_NAME c @ ''/video/upload'',
      req_headers = form_headers,
      req_body = Form [(''upload_preset'', Field (CLOUDINARY_UPLOAD_PRESET c)),
                       (''file'', file_part fileBuffer filename)]\<rparr>"

definition cloudinary_outcome :: "response \<Rightarrow> attempt" where
  "cloudinary_outcome resp =
     (case resp of
        Rejected e \<Rightarrow> Caught e
      | Response r \<Rightarrow>
          if \<not> ok r
          then Caught (Error (''cloudinary upload failed: '' @ show_nat (res_status r) @ '' ''
                               @ text_or_empty r))
          else (let j = json_or_empty r
                in case get_prop j ''secure_url'' of
                     Inl e \<Rightarrow> Caught e
                   | Inr a \<Rightarrow>
                       (case or_else (or_else a (own_prop j ''url'')) (JStr []) of
                          JStr u \<Rightarrow>
                            (let url = to_https u
                             in if url \<noteq> [] then Returned url
                                else Warned [Val (JStr ''cloudinary upload returned no url''), Val j])
                        | _ \<Rightarrow> Caught (TypeError (''(j.secure_url || j.url || '' @ [CHR 0x22, CHR 0x22]
                                                @ '').replace is not a function'')))))"

definition try_cloudinary ::
  "config \<Rightarrow> world \<Rightarrow> bytes \<Rightarrow> string option \<Rightarrow> state \<Rightarrow> string option \<times> state" where
  "try_cloudinary c w fileBuffer filename s =
     (if cloudinary_configured c
      then (case fetch w (cloudinary_request c fileBuffer filename) s of
              (resp, s1) \<Rightarrow> settle ''cloudinary'' (cloudinary_outcome resp) s1)
      else (None, s))"

subsection \<open>catbox.moe (lines 108 to 134)\<close>

definition catbox_request :: "bytes \<Rightarrow> string option \<Rightarrow> request" where
  "catbox_request fileBuffer filename =
     \<lparr>req_method = ''POST'',
      req_url = ''https://catbox.moe/user/api.php'',
      req_headers = form_headers,
      req_body = Form [(''reqtype'', Field ''fileupload''),
                       (''fileToUpload'', file_part fileBuffer filename)]\<rparr>"

definition catbox_outcome :: "response \<Rightarrow> attempt" where
  "catbox_outcome resp =
     (case resp of
        Rejected e \<Rightarrow> Caught e
      | Response r \<Rightarrow>
          if \<not> ok r
          then Caught (Error (''catbox upload failed: '' @ show_nat (res_status r) @ '' ''
                               @ text_or_empty r))
          else (case res_text r of
                  Inl e \<Rightarrow> Caught e
                | Inr t \<Rightarrow>
                    (let catUrl = to_https (trim t)
                     in if catUrl \<noteq> [] \<and> startsWith catUrl ''https://files.catbox.moe/''
                        then Returned catUrl
                        else Warned [Val (JStr ''catbox upload returned unexpected url:''),
                                     Val (JStr catUrl)])))"

definition try_catbox ::
  "world \<Rightarrow> bytes \<Rightarrow> string option \<Rightarrow> state \<Rightarrow> string option \<times> state" where
  "try_catbox w fileBuffer filename s =
     (case fetch w (catbox_request fileBuffer filename) s of
        (resp, s1) \<Rightarrow> settle ''catbox'' (catbox_outcome resp) s1)"

subsection \<open>tmpfiles.org (lines 136 to 164)\<close>

definition tmpfiles_request :: "bytes \<Rightarrow> string option \<Rightarrow> request" where
  "tmpfiles_request fileBuffer filename =
     \<lparr>req_method = ''POST'',
      req_url = ''https://tmpfiles.org/api/v1/upload'',
      req_headers = form_headers,
      req_body = Form [(''file'', file_part fileBuffer filename)]\<rparr>"

definition tmpfiles_match :: "string \<Rightarrow> string option" where
  \<comment> \<open>the group of \<^verbatim>\<open>url.match(/^https:\/\/tmpfiles\.org\/([^\/\?\#]+)/)\<close>, \<open>None\<close> for no
      match\<close>
  "tmpfiles_match u =
     (if startsWith u ''https://tmpfiles.org/''
      then (let seg = takeWhile (\<lambda>ch. ch \<notin> set ''/?#'') (drop 21 u)
            in if seg = [] then None else Some seg)
      else None)"

definition tmpfiles_direct :: "string \<Rightarrow> string" where
  "tmpfiles_direct u =
     (let url = to_https u
      in case tmpfiles_match url of
           Some seg \<Rightarrow> ''https://tmpfiles.org/dl/'' @ seg
         | None \<Rightarrow> url)"

definition tmpfiles_outcome :: "response \<Rightarrow> attempt" where
  "tmpfiles_outcome resp =
     (case resp of
        Rejected e \<Rightarrow> Caught e
      | Response r \<Rightarrow>
          if \<not> ok r
          then Caught (Error (''tmpfiles upload failed: '' @ show_nat (res_status r) @ '' ''
                               @ text_or_empty r))
          else (let j = json_or_empty r;
                    url = or_else (own_prop (own_prop j ''data'') ''url'') (own_prop j ''url'')
                in if truthy url
                   then (case url of
                           JStr u \<Rightarrow> Returned (tmpfiles_direct u)
                         | _ \<Rightarrow> Caught (TypeError ''url.replace is not a function''))
                   else Warned [Val (JStr ''tmpfiles upload returned no url, falling back...'')]))"

definition try_tmpfiles ::
  "world \<Rightarrow> bytes \<Rightarrow> string option \<Rightarrow> state \<Rightarrow> string option \<times> state" where
  "try_tmpfiles w fileBuffer filename s =
     (case fetch w (tmpfiles_request fileBuffer filename) s of
        (resp, s1) \<Rightarrow> settle ''tmpfiles'' (tmpfiles_outcome resp) s1)"

subsection \<open>transfer.sh (lines 166 to 188)\<close>

definition rawName :: "string option \<Rightarrow> string" where
  "rawName filename =
     map safe_char (squash_spaces False (toLowerCase (str_or filename ''upload.mp4'')))"

definition transfer_request :: "bytes \<Rightarrow> string option \<Rightarrow> request" where
  \<comment> \<open>\<^verbatim>\<open>encodeURIComponent\<close> leaves the characters of \<^verbatim>\<open>[a-z0-9._-]\<close> as they are, and
      \<open>rawName\<close> has no other\<close>
  "transfer_request fileBuffer filename =
     \<lparr>req_method = ''PUT'',
      req_url = ''https://transfer.sh/'' @ rawName filename,
      req_headers = [(''Content-Type'', contentType filename),
                     (''Content-Length'', show_nat (length fileBuffer))],
      req_body = Raw fileBuffer\<rparr>"

definition transfer_outcome :: "response \<Rightarrow> attempt" where
  "transfer_outcome resp =
     (case resp of
        Rejected e \<Rightarrow> Caught e
      | Response r \<Rightarrow>
          if \<not> ok r
          then Caught (Error (''transfer.sh upload failed: '' @ show_nat (res_status r) @ '' ''
                               @ text_or_empty r))
          else (case res_text r of
                  Inl e \<Rightarrow> Caught e
                | Inr t \<Rightarrow> Returned (to_https (trim t))))"

definition try_transfer ::
  "world \<Rightarrow> bytes \<Rightarrow> string option \<Rightarrow> state \<Rightarrow> string option \<times> state" where
  "try_transfer w fileBuffer filename s =
     (case fetch w (transfer_request fileBuffer filename) s of
        (resp, s1) \<Rightarrow> settle ''transfer.sh'' (transfer_outcome resp) s1)"

subsection \<open>The chain\<close>

definition all_failed :: exn where
  "all_failed = Error ''All upload strategies failed (catbox.moe, tmpfiles.org, transfer.sh).''"

definition uploadToReplicate ::
  "config \<Rightarrow> world \<Rightarrow> bytes \<Rightarrow> string option \<Rightarrow> state \<Rightarrow> (exn + string) \<times> state" where
  "uploadToReplicate c w fileBuffer filename s =
     (case try_cloudinary c w fileBuffer filename s of
        (Some u, s1) \<Rightarrow> (Inr u, s1)
      | (None, s1) \<Rightarrow>
     (case try_catbox w fileBuffer filename s1 of
        (Some u, s2) \<Rightarrow> (Inr u, s2)
      | (None, s2) \<Rightarrow>
     (case try_tmpfiles w fileBuffer filename s2 of
        (Some u, s3) \<Rightarrow> (Inr u, s3)
      | (None, s3) \<Rightarrow>
     (case try_transfer w fileBuffer filename s3 of
        (Some u, s4) \<Rightarrow> (Inr u, s4)
      | (None, s4) \<Rightarrow> (Inl all_failed, s4)))))"

section \<open>The prediction orchestrator\<close>

text \<open>
  \<^verbatim>\<open>runPredictionWithUrl(videoUrl, onLog)\<close>, lines 194 to 265. The lines given to \<^verbatim>\<open>onLog\<close>
  are appended to the field \<open>sink\<close> of the state.
\<close>

definition first_present :: "string option \<Rightarrow> string option \<Rightarrow> string option" where
  \<comment> \<open>\<^verbatim>\<open>a || b\<close> on strings that may be null\<close>
  "first_present a b = (if present a then a else b)"

definition endpoint :: "config \<Rightarrow> string" where
  "endpoint c =
     (if present (REPLICATE_MODEL_SLUG c) \<and>
         present (first_present (REPLICATE_VERSION_ID c) (REPLICATE_MODEL_VERSION c))
      then ''https://api.replicate.com/v1/models/'' @ template (REPLICATE_MODEL_SLUG c)
           @ ''/versions/''
           @ template (first_present (REPLICATE_VERSION_ID c) (REPLICATE_MODEL_VERSION c))
           @ ''/predictions''
      else ''https://api.replicate.com/v1/predictions'')"

definition authorization :: "config \<Rightarrow> string \<times> string" where
  "authorization c = (''Authorization'', ''Token '' @ template (REPLICATE_API_TOKEN c))"

definition start_request :: "config \<Rightarrow> string \<Rightarrow> request" where
  "start_request c videoUrl =
     \<lparr>req_method = ''POST'',
      req_url = endpoint c,
      req_headers = [authorization c, (''Content-Type'', ''application/json'')],
      req_body = JsonText (JObj [(''input'', JObj [(''video'', JStr videoUrl)])])\<rparr>"

definition poll_request :: "config \<Rightarrow> string \<Rightarrow> request" where
  "poll_request c predictionId =
     \<lparr>req_method = ''GET'',
      req_url = ''https://api.replicate.com/v1/predictions/'' @ predictionId,
      req_headers = [authorization c],
      req_body = NoBody\<rparr>"

definition timeoutMs :: nat where
  "timeoutMs = 10 * 60 * 1000"

definition non_terminal :: "js_value \<Rightarrow> bool" where
  \<comment> \<open>\<^verbatim>\<open>["queued", "starting", "processing"].includes(status)\<close>\<close>
  "non_terminal status = (status \<in> set [JStr ''queued'', JStr ''starting'', JStr ''processing''])"

definition poll_once ::
  "config \<Rightarrow> world \<Rightarrow> js_value \<Rightarrow> state \<Rightarrow> (exn + js_value \<times> js_value) \<times> state" where
  \<comment> \<open>lines 241 to 257, one turn of the loop after the check of the clock; it yields the
      new \<^verbatim>\<open>status\<close> and \<^verbatim>\<open>lastData\<close>\<close>
  "poll_once c w predictionId s =
     (let s1 = sleep 2000 s
      in case to_string predictionId of
           None \<Rightarrow> (Inl unprintable, s1)
         | Some p \<Rightarrow>
             (case fetch w (poll_request c p) (onLog (''poll: GET /v1/predictions/'' @ p) s1) of
                (Rejected e, s2) \<Rightarrow> (Inl e, s2)
              | (Response r, s2) \<Rightarrow>
                  if \<not> ok r
                  then (case res_text r of
                          Inl e \<Rightarrow> (Inl e, s2)
                        | Inr t \<Rightarrow>
                            (Inl (Error (''Replicate prediction poll failed: ''
                                          @ show_nat (res_status r) @ '' '' @ t)),
                             onLog (''poll: response '' @ show_nat (res_status r) @ '' ''
                                    @ take 200 t) s2))
                  else (case res_json r of
                          Inl e \<Rightarrow> (Inl e, s2)
                        | Inr lastData \<Rightarrow>
                            (case get_prop lastData ''status'' of
                               Inl e \<Rightarrow> (Inl e, s2)
                             | Inr status \<Rightarrow>
                                 (case to_string status of
                                    None \<Rightarrow> (Inl unprintable, s2)
                                  | Some t \<Rightarrow>
                                      (Inr (status, lastData), onLog (''status: '' @ t) s2))))))"

function poll_loop ::
  "config \<Rightarrow> world \<Rightarrow> nat \<Rightarrow> js_value \<Rightarrow> js_value \<times> js_value \<Rightarrow> state
     \<Rightarrow> (exn + js_value \<times> js_value) \<times> state" where
  \<comment> \<open>the \<^verbatim>\<open>while\<close> of lines 236 to 258, from the values of \<^verbatim>\<open>status\<close> and \<^verbatim>\<open>lastData\<close>\<close>
  "poll_loop c w startedAt predictionId (status, lastData) s =
     (if non_terminal status
      then if now s - startedAt > timeoutMs
           then (Inl (Error ''Prediction timed out.''), onLog ''error: timed out'' s)
           else (case poll_once c w predictionId s of
                   (Inl e, s') \<Rightarrow> (Inl e, s')
                 | (Inr sd, s') \<Rightarrow> poll_loop c w startedAt predictionId sd s')
      else (Inr (status, lastData), s))"
  by pat_completeness auto
termination
proof (relation "measure (\<lambda>(c, w, startedAt, predictionId, sd, s). startedAt + timeoutMs + 1 - now s)")
  show "wf (measure (\<lambda>(c, w, startedAt, predictionId, sd, s). startedAt + timeoutMs + 1 - now s))"
    by simp
next
  fix c w startedAt predictionId status lastData s x y and sd :: "js_value \<times> js_value"
  assume within: "\<not> timeoutMs < now s - startedAt"
    and turn: "(x, y) = poll_once c w predictionId s"
  from turn have "now s + 2000 \<le> now y"
    by (auto simp: poll_once_def Let_def sleep_def onLog_def fetch_def
             split: option.splits prod.splits response.splits sum.splits if_splits)
  with within show "((c, w, startedAt, predictionId, sd, y), c, w, startedAt, predictionId,
               (status, lastData), s)
             \<in> measure (\<lambda>(c, w, startedAt, predictionId, sd, s). startedAt + timeoutMs + 1 - now s)"
    by simp
qed

declare poll_loop.simps [simp del]

definition finish :: "js_value \<Rightarrow> js_value \<Rightarrow> exn + js_value" where
  \<comment> \<open>lines 260 to 264\<close>
  "finish status lastData =
     (if status \<noteq> JStr ''succeeded''
      then (case to_string status of
              None \<Rightarrow> Inl unprintable
            | Some a \<Rightarrow>
                (case to_string (or_else (own_prop lastData ''error'') (JStr ''unknown'')) of
                   None \<Rightarrow> Inl unprintable
                 | Some b \<Rightarrow>
                     Inl (Error (''Prediction ended with status: '' @ a @ '', error: '' @ b))))
      else Inr lastData)"

definition runPredictionWithUrl ::
  "config \<Rightarrow> world \<Rightarrow> string \<Rightarrow> state \<Rightarrow> (exn + js_value) \<times> state" where
  "runPredictionWithUrl c w videoUrl s =
     (let s1 = onLog (''start: POST '' @ endpoint c) s;
          s2 = onLog (''input: keys=video video='' @ videoUrl) s1;
          s3 = console Log [Val (JStr ''Starting Replicate prediction -> endpoint:''),
                            Val (JStr (endpoint c)), Val (JStr ''input keys:''),
                            Val (JArr [JStr ''video''])] s2
      in case fetch w (start_request c videoUrl) s3 of
           (Rejected e, s4) \<Rightarrow> (Inl e, s4)
         | (Response r, s4) \<Rightarrow>
             (let s5 = onLog (''start: response '' @ show_nat (res_status r)) s4
              in if \<not> ok r
                 then (case res_text r of
                         Inl e \<Rightarrow> (Inl e, s5)
                       | Inr t \<Rightarrow>
                           (Inl (Error (''Replicate prediction start failed: ''
                                         @ show_nat (res_status r) @ '' '' @ t)), s5))
                 else (case res_json r of
                         Inl e \<Rightarrow> (Inl e, s5)
                       | Inr startData \<Rightarrow>
                           (case get_prop startData ''id'' of
                              Inl e \<Rightarrow> (Inl e, s5)
                            | Inr predictionId \<Rightarrow>
                                (case poll_loop c w (now s5) predictionId
                                        (own_prop startData ''status'', startData) s5 of
                                   (Inl e, s6) \<Rightarrow> (Inl e, s6)
                                 | (Inr (status, lastData), s6) \<Rightarrow>
                                     (finish status lastData, s6))))))"

section \<open>The routes\<close>

text \<open>
  \<^verbatim>\<open>GET /api/health\<close> (lines 60 to 66) and \<^verbatim>\<open>POST /api/remove\<close> (lines 268 to 311), as
  the handlers see a request once the middleware (CORS, the JSON body parser, multer)
  has let it through: whether \<^verbatim>\<open>req.is("application/json")\<close> holds, \<^verbatim>\<open>req.body\<close>, and
  \<^verbatim>\<open>req.file\<close> when a file came with the request.
\<close>

record upload_file =
  buffer :: "bytes option"
  originalname :: "string option"

record http_request =
  rq_is_json :: bool
  rq_body :: js_value
  rq_file :: "upload_file option"

record reply =
  rp_status :: nat
  rp_json :: js_value

definition health :: "config \<Rightarrow> reply" where
  "health c =
     \<lparr>rp_status = 200,
      rp_json = JObj [(''ok'', JBool True), (''service'', JStr ''SoraWatermarkCleaner''),
                      (''replicateConfigured'',
                       JBool (present (REPLICATE_API_TOKEN c) \<and> present (REPLICATE_MODEL_VERSION c)))]\<rparr>"

definition error_reply :: "nat \<Rightarrow> string \<Rightarrow> reply" where
  \<comment> \<open>\<^verbatim>\<open>res.status(n).json({ error: m })\<close>\<close>
  "error_reply n m = \<lparr>rp_status = n, rp_json = JObj [(''error'', JStr m)]\<rparr>"

definition not_configured :: string where
  "not_configured = ''Server not configured. Set REPLICATE_API_TOKEN and REPLICATE_MODEL_VERSION.''"

definition result_reply :: "string list \<Rightarrow> js_value \<Rightarrow> exn + reply" where
  \<comment> \<open>lines 281 to 285 and 299 to 303\<close>
  "result_reply logs prediction =
     (case (if truthy (own_prop prediction ''logs'')
            then map_option (\<lambda>l. [l]) (to_string (own_prop prediction ''logs''))
            else Some []) of
        None \<Rightarrow> Inl unprintable
      | Some extra \<Rightarrow>
          Inr \<lparr>rp_status = 200,
               rp_json = JObj [(''status'', own_prop prediction ''status''),
                               (''output'', own_prop prediction ''output''),
                               (''logs'', JStr (join [CHR 0x0A] (logs @ extra)))]\<rparr>)"

definition predict_and_reply ::
  "config \<Rightarrow> world \<Rightarrow> string \<Rightarrow> state \<Rightarrow> (exn + reply) \<times> state" where
  \<comment> \<open>the call of \<^verbatim>\<open>runPredictionWithUrl\<close> with \<^verbatim>\<open>(m) => logs.push(m)\<close>, and the reply\<close>
  "predict_and_reply c w videoUrl s =
     (case runPredictionWithUrl c w videoUrl s of
        (Inl e, s') \<Rightarrow> (Inl e, s')
      | (Inr prediction, s') \<Rightarrow> (result_reply (sink s') prediction, s'))"

definition remove_body ::
  "config \<Rightarrow> world \<Rightarrow> http_request \<Rightarrow> state \<Rightarrow> (exn + reply) \<times> state" where
  \<comment> \<open>the body of the \<^verbatim>\<open>try\<close>, lines 270 to 306; \<open>Inl\<close> is what it throws\<close>
  "remove_body c w req s =
     (if \<not> present (REPLICATE_API_TOKEN c) \<or> \<not> present (REPLICATE_MODEL_VERSION c)
      then (Inr (error_reply 500 not_configured), s)
      else if rq_is_json req \<and> truthy (rq_body req) \<and> truthy (own_prop (rq_body req) ''url'')
      then (case to_string (own_prop (rq_body req) ''url'') of
              None \<Rightarrow> (Inl unprintable, s)
            | Some u \<Rightarrow>
                if trim u = [] then (Inr (error_reply 400 ''Invalid URL.''), s)
                else predict_and_reply c w (trim u) (s\<lparr>sink := []\<rparr>))
      else (case rq_file req of
              Some file \<Rightarrow>
                (case buffer file of
                   None \<Rightarrow> (Inr (error_reply 400 ''Invalid file upload.''), s)
                 | Some fileBuffer \<Rightarrow>
                     if \<not> present (originalname file)
                     then (Inr (error_reply 400 ''Invalid file upload.''), s)
                     else (case uploadToReplicate c w fileBuffer (originalname file)
                                  (s\<lparr>sink := []\<rparr>) of
                             (Inl e, s1) \<Rightarrow> (Inl e, s1)
                           | (Inr tempUrl, s1) \<Rightarrow>
                               predict_and_reply c w tempUrl (onLog (''upload: ok -> '' @ tempUrl) s1)))
            | None \<Rightarrow>
                (Inr (error_reply 400
                        (''Provide either JSON {url} or multipart with '' @ [CHR 0x27] @ ''file''
                         @ [CHR 0x27] @ ''.'')), s)))"

definition remove_handler :: "config \<Rightarrow> world \<Rightarrow> http_request \<Rightarrow> state \<Rightarrow> reply \<times> state" where
  \<comment> \<open>with the \<^verbatim>\<open>catch\<close> of lines 307 to 310\<close>
  "remove_handler c w req s =
     (case remove_body c w req s of
        (Inr r, s') \<Rightarrow> (r, s')
      | (Inl err, s') \<Rightarrow>
          (error_reply 500 (if message err \<noteq> [] then message err else ''Server error''),
           console Err [Thrown err] s'))"

section \<open>Vocabulary of the statements\<close>

text \<open>
  The four hosts in the order of the source, the request each branch sends, what each
  branch makes of a response, and what the function returns from there. \<open>answers\<close>
  lists, for the hosts of a list, what each would return on the response the world
  holds for its turn. \<open>started\<close> and \<open>polled\<close> are the states the orchestrator
  reaches once the submission has been answered and after one more turn of its loop,
  and \<open>polls_trace\<close> is what a number of turns add to the trace.
\<close>

datatype backend = Cloudinary | Catbox | Tmpfiles | Transfer

definition chain :: "config \<Rightarrow> backend list" where
  "chain c = (if cloudinary_configured c then [Cloudinary] else []) @ [Catbox, Tmpfiles, Transfer]"

fun request_for :: "config \<Rightarrow> bytes \<Rightarrow> string option \<Rightarrow> backend \<Rightarrow> request" where
  "request_for c b f Cloudinary = cloudinary_request c b f"
| "request_for c b f Catbox = catbox_request b f"
| "request_for c b f Tmpfiles = tmpfiles_request b f"
| "request_for c b f Transfer = transfer_request b f"

fun outcome_of :: "backend \<Rightarrow> response \<Rightarrow> attempt" where
  "outcome_of Cloudinary resp = cloudinary_outcome resp"
| "outcome_of Catbox resp = catbox_outcome resp"
| "outcome_of Tmpfiles resp = tmpfiles_outcome resp"
| "outcome_of Transfer resp = transfer_outcome resp"

fun returned :: "attempt \<Rightarrow> string option" where
  "returned (Returned u) = Some u"
| "returned (Warned _) = None"
| "returned (Caught _) = None"

fun answers ::
  "world \<Rightarrow> config \<Rightarrow> bytes \<Rightarrow> string option \<Rightarrow> nat \<Rightarrow> backend list \<Rightarrow> string option list" where
  "answers w c b f i [] = []"
| "answers w c b f i (x # xs) =
     returned (outcome_of x (net w i (request_for c b f x))) # answers w c b f (Suc i) xs"

fun lacks_url :: "backend \<Rightarrow> http_res \<Rightarrow> bool" where
  \<comment> \<open>a 2xx response that gives the branch of a host no link: for the two JSON hosts, no
      body that parses or no non-empty value under the keys read; for catbox.moe, no body
      or a body that is not a catbox link\<close>
  "lacks_url Cloudinary r =
     (\<not> truthy (own_prop (json_or_empty r) ''secure_url'') \<and>
      \<not> truthy (own_prop (json_or_empty r) ''url''))"
| "lacks_url Catbox r =
     (case res_text r of
        Inl _ \<Rightarrow> True
      | Inr t \<Rightarrow> \<not> startsWith (to_https (trim t)) ''https://files.catbox.moe/'')"
| "lacks_url Tmpfiles r =
     (\<not> truthy (own_prop (own_prop (json_or_empty r) ''data'') ''url'') \<and>
      \<not> truthy (own_prop (json_or_empty r) ''url''))"
| "lacks_url Transfer r = False"

definition started :: "config \<Rightarrow> world \<Rightarrow> string \<Rightarrow> nat \<Rightarrow> state \<Rightarrow> state" where
  \<comment> \<open>the state once the submission has been answered with the status code given\<close>
  "started c w videoUrl code s =
     s\<lparr>trace := trace s @
          [Console Log [Val (JStr ''Starting Replicate prediction -> endpoint:''),
                        Val (JStr (endpoint c)), Val (JStr ''input keys:''),
                        Val (JArr [JStr ''video''])],
           Fetch (start_request c videoUrl)],
       fetched := Suc (fetched s),
       now := now s + took w (fetched s),
       sink := sink s @ [''start: POST '' @ endpoint c,
                         ''input: keys=video video='' @ videoUrl,
                         ''start: response '' @ show_nat code]\<rparr>"

definition polled :: "config \<Rightarrow> world \<Rightarrow> string \<Rightarrow> string \<Rightarrow> state \<Rightarrow> state" where
  \<comment> \<open>the state after one more turn of the loop, the poll answering with the status given\<close>
  "polled c w p t s =
     s\<lparr>trace := trace s @ [Sleep 2000, Fetch (poll_request c p)],
       fetched := Suc (fetched s),
       now := now s + 2000 + took w (fetched s),
       sink := sink s @ [''poll: GET /v1/predictions/'' @ p, ''status: '' @ t]\<rparr>"

definition polls_trace :: "config \<Rightarrow> string \<Rightarrow> nat \<Rightarrow> event list" where
  \<comment> \<open>what \<open>n\<close> turns of the loop add to the trace: a pause and a poll, \<open>n\<close> times\<close>
  "polls_trace c p n = concat (replicate n [Sleep 2000, Fetch (poll_request c p)])"

section \<open>Worlds, configurations and requests of the examples\<close>

definition fresh :: state where
  "fresh = \<lparr>trace = [], fetched = 0, now = 0, sink = []\<rparr>"

definition unset :: config where
  "unset = \<lparr>REPLICATE_API_TOKEN = None, REPLICATE_MODEL_VERSION = None,
            CLOUDINARY_CLOUD_NAME = [], CLOUDINARY_UPLOAD_PRESET = []\<rparr>"

definition refusing :: world where
  \<comment> \<open>no host can be reached\<close>
  "refusing = \<lparr>net = (\<lambda>i r. Rejected (FetchError ''connect ECONNREFUSED'')), took = (\<lambda>i. 0)\<rparr>"

definition url_request :: http_request where
  "url_request = \<lparr>rq_is_json = True,
                   rq_body = JObj [(''url'', JStr ''https://example.com/in.mp4'')],
                   rq_file = None\<rparr>"

definition answering :: "(string \<times> response) list \<Rightarrow> world" where
  \<comment> \<open>a world that answers by the URL asked, at once, and cannot reach any other host\<close>
  "answering table =
     \<lparr>net = (\<lambda>i r. case map_of table (req_url r) of
                       Some resp \<Rightarrow> resp
                     | None \<Rightarrow> Rejected (FetchError ''connect ECONNREFUSED'')),
      took = (\<lambda>i. 0)\<rparr>"

definition plain :: "nat \<Rightarrow> string \<Rightarrow> response" where
  \<comment> \<open>a response whose body is not JSON\<close>
  "plain n t = Response \<lparr>res_status = n, res_text = Inr t,
                          res_json = Inl (SyntaxError ''Unexpected token'')\<rparr>"

definition json_body :: "nat \<Rightarrow> js_value \<Rightarrow> response" where
  \<comment> \<open>a response whose body is the JSON text of a value; the text itself is not spelt out\<close>
  "json_body n j = Response \<lparr>res_status = n, res_text = Inr ''{...}'', res_json = Inr j\<rparr>"

definition with_cloudinary :: config where
  "with_cloudinary = \<lparr>REPLICATE_API_TOKEN = Some ''r8_token'',
                      REPLICATE_MODEL_VERSION = Some ''owner/name:abc123'',
                      CLOUDINARY_CLOUD_NAME = ''demo'', CLOUDINARY_UPLOAD_PRESET = ''unsigned''\<rparr>"

definition without_cloudinary :: config where
  "without_cloudinary = \<lparr>REPLICATE_API_TOKEN = Some ''r8_token'',
                         REPLICATE_MODEL_VERSION = Some ''owner/name:abc123'',
                         CLOUDINARY_CLOUD_NAME = [], CLOUDINARY_UPLOAD_PRESET = []\<rparr>"

definition all_down :: world where
  \<comment> \<open>every host answers 503\<close>
  "all_down = \<lparr>net = (\<lambda>i r. plain 503 ''Service Unavailable''), took = (\<lambda>i. 0)\<rparr>"

definition odd_scheme :: world where
  \<comment> \<open>catbox.moe is down; tmpfiles.org answers 200 with a link in another scheme\<close>
  "odd_scheme = answering
     [(''https://catbox.moe/user/api.php'', plain 503 ''Service Unavailable''),
      (''https://tmpfiles.org/api/v1/upload'',
       json_body 200 (JObj [(''status'', JStr ''success''),
                            (''data'', JObj [(''url'', JStr ''ftp://tmpfiles.org/123/a.mp4'')])]))]"

definition plain_link :: world where
  \<comment> \<open>catbox.moe answers with a link in the clear\<close>
  "plain_link = answering
     [(''https://catbox.moe/user/api.php'', plain 200 ''http://files.catbox.moe/abc123.mp4'')]"

definition landing_page :: world where
  \<comment> \<open>tmpfiles.org answers with the link of its landing page\<close>
  "landing_page = answering
     [(''https://tmpfiles.org/api/v1/upload'',
       json_body 200 (JObj [(''status'', JStr ''success''),
                            (''data'', JObj [(''url'', JStr ''http://tmpfiles.org/123/a.mp4?x=1#t'')])]))]"

definition empty_catbox :: world where
  \<comment> \<open>catbox.moe answers 200 with an empty body, tmpfiles.org with a link\<close>
  "empty_catbox = answering
     [(''https://catbox.moe/user/api.php'', plain 200 []),
      (''https://tmpfiles.org/api/v1/upload'',
       json_body 200 (JObj [(''status'', JStr ''success''),
                            (''data'', JObj [(''url'', JStr ''https://tmpfiles.org/123/a.mp4'')])]))]"

definition stray_link :: world where
  \<comment> \<open>catbox.moe is down; tmpfiles.org answers 200 with something that is no link of its\<close>
  "stray_link = answering
     [(''https://catbox.moe/user/api.php'', plain 503 ''Service Unavailable''),
      (''https://tmpfiles.org/api/v1/upload'',
       json_body 200 (JObj [(''status'', JStr ''error''), (''url'', JStr ''upload rejected'')]))]"

definition versioned :: "string \<Rightarrow> config" where
  \<comment> \<open>a configuration with the model identifier given\<close>
  "versioned v = \<lparr>REPLICATE_API_TOKEN = Some ''r8_token'', REPLICATE_MODEL_VERSION = Some v,
                   CLOUDINARY_CLOUD_NAME = [], CLOUDINARY_UPLOAD_PRESET = []\<rparr>"

definition scripted :: "response list \<Rightarrow> world" where
  \<comment> \<open>a world that answers the calls of a run in turn, at once, and then cannot be
      reached\<close>
  "scripted rs =
     \<lparr>net = (\<lambda>i r. if i < length rs then rs ! i
                    else Rejected (FetchError ''connect ECONNREFUSED'')),
      took = (\<lambda>i. 0)\<rparr>"

definition job :: "string \<Rightarrow> js_value" where
  \<comment> \<open>the prediction \<^verbatim>\<open>p1\<close> in the status given\<close>
  "job st = JObj [(''id'', JStr ''p1''), (''status'', JStr st)]"

definition finished_job :: js_value where
  "finished_job = JObj [(''id'', JStr ''p1''), (''status'', JStr ''succeeded''),
                        (''output'', JStr ''https://cdn.example.com/out.mp4'')]"

definition failed_job :: js_value where
  "failed_job = JObj [(''id'', JStr ''p1''), (''status'', JStr ''failed''),
                      (''error'', JStr ''CUDA out of memory'')]"

definition done_at_once :: world where
  "done_at_once = scripted [json_body 201 finished_job]"

definition never_ready :: world where
  \<comment> \<open>every request is answered at once with the prediction still processing\<close>
  "never_ready = \<lparr>net = (\<lambda>i r. json_body 200 (job ''processing'')), took = (\<lambda>i. 0)\<rparr>"

definition two_polls :: world where
  \<comment> \<open>the submission is accepted as processing; the polls answer processing, succeeded\<close>
  "two_polls = scripted [json_body 201 (job ''processing''), json_body 200 (job ''processing''),
                         json_body 200 finished_job]"

definition fails_later :: world where
  \<comment> \<open>the submission is accepted as starting; the polls answer processing, failed\<close>
  "fails_later = scripted [json_body 201 (job ''starting''), json_body 200 (job ''processing''),
                           json_body 200 failed_job]"

section \<open>The configuration guard of the routes\<close>

lemma remove_unconfigured:
  "\<not> present (REPLICATE_API_TOKEN c) \<or> \<not> present (REPLICATE_MODEL_VERSION c) \<Longrightarrow>
     remove_handler c w req s = (error_reply 500 not_configured, s)"
  by (auto simp: remove_handler_def remove_body_def)

text \<open>
  C9. With neither \<^verbatim>\<open>REPLICATE_API_TOKEN\<close> nor \<^verbatim>\<open>REPLICATE_MODEL_VERSION\<close> set (or set to
  the empty string), the health route reports \<^verbatim>\<open>replicateConfigured: false\<close>, and the
  handler of \<^verbatim>\<open>POST /api/remove\<close> answers every request that reaches it with status 500
  and the error message of line 271 (\<^verbatim>\<open>Server not configured. ...\<close>), leaving the
  state as it was: no request is sent.
\<close>

theorem unconfigured_replies_500_without_network:
  assumes "\<not> present (REPLICATE_API_TOKEN c)" and "\<not> present (REPLICATE_MODEL_VERSION c)"
  shows "own_prop (rp_json (health c)) ''replicateConfigured'' = JBool False \<and>
         fst (remove_handler c w req s) = error_reply 500 not_configured \<and>
         rp_status (fst (remove_handler c w req s)) = 500 \<and>
         rp_json (fst (remove_handler c w req s)) =
           JObj [(''error'',
                  JStr ''Server not configured. Set REPLICATE_API_TOKEN and REPLICATE_MODEL_VERSION.'')] \<and>
         snd (remove_handler c w req s) = s \<and>
         requests (snd (remove_handler c w req s)) = requests s"
  using assms by (simp add: remove_unconfigured health_def error_reply_def not_configured_def)

theorem unconfigured_replies_500_without_network_witness:
  "REPLICATE_API_TOKEN unset = None \<and> REPLICATE_MODEL_VERSION unset = None \<and>
   own_prop (rp_json (health unset)) ''replicateConfigured'' = JBool False \<and>
   fst (remove_handler unset refusing url_request fresh) = error_reply 500 not_configured \<and>
   requests (snd (remove_handler unset refusing url_request fresh)) = []"
  using unconfigured_replies_500_without_network [of unset refusing url_request fresh]
  by (simp add: unset_def present_def fresh_def requests_def)

section \<open>The upload chain: order and short circuit\<close>

lemma fetch_simps [simp]:
  "fst (fetch w r s) = net w (fetched s) r"
  "requests (snd (fetch w r s)) = requests s @ [r]"
  "fetched (snd (fetch w r s)) = Suc (fetched s)"
  by (simp_all add: fetch_def requests_def)

lemma settle_simps [simp]:
  "fst (settle n a s) = returned a"
  "requests (snd (settle n a s)) = requests s"
  "fetched (snd (settle n a s)) = fetched s"
  by (cases a; simp add: settle_def console_def requests_def)+

lemma try_catbox_simps [simp]:
  "fst (try_catbox w b f s) = returned (catbox_outcome (net w (fetched s) (catbox_request b f)))"
  "requests (snd (try_catbox w b f s)) = requests s @ [catbox_request b f]"
  "fetched (snd (try_catbox w b f s)) = Suc (fetched s)"
  by (simp_all add: try_catbox_def split_beta)

lemma try_tmpfiles_simps [simp]:
  "fst (try_tmpfiles w b f s) = returned (tmpfiles_outcome (net w (fetched s) (tmpfiles_request b f)))"
  "requests (snd (try_tmpfiles w b f s)) = requests s @ [tmpfiles_request b f]"
  "fetched (snd (try_tmpfiles w b f s)) = Suc (fetched s)"
  by (simp_all add: try_tmpfiles_def split_beta)

lemma try_transfer_simps [simp]:
  "fst (try_transfer w b f s) = returned (transfer_outcome (net w (fetched s) (transfer_request b f)))"
  "requests (snd (try_transfer w b f s)) = requests s @ [transfer_request b f]"
  "fetched (snd (try_transfer w b f s)) = Suc (fetched s)"
  by (simp_all add: try_transfer_def split_beta)

lemma try_cloudinary_on:
  assumes "cloudinary_configured c"
  shows "fst (try_cloudinary c w b f s) =
           returned (cloudinary_outcome (net w (fetched s) (cloudinary_request c b f)))"
    and "requests (snd (try_cloudinary c w b f s)) = requests s @ [cloudinary_request c b f]"
    and "fetched (snd (try_cloudinary c w b f s)) = Suc (fetched s)"
  using assms by (simp_all add: try_cloudinary_def split_beta)

lemma try_cloudinary_off:
  "\<not> cloudinary_configured c \<Longrightarrow> try_cloudinary c w b f s = (None, s)"
  by (simp add: try_cloudinary_def)

text \<open>The three anonymous hosts, from the state the Cloudinary block leaves.\<close>

lemma three_hosts:
  fixes w :: world and c :: config and b :: bytes and f :: "string option" and s1 :: state
  defines "bs \<equiv> [Catbox, Tmpfiles, Transfer]"
  defines "r \<equiv>
     (case try_catbox w b f s1 of
        (Some u, s2) \<Rightarrow> (Inr u, s2)
      | (None, s2) \<Rightarrow>
     (case try_tmpfiles w b f s2 of
        (Some u, s3) \<Rightarrow> (Inr u, s3)
      | (None, s3) \<Rightarrow>
     (case try_transfer w b f s3 of
        (Some u, s4) \<Rightarrow> (Inr u, s4)
      | (None, s4) \<Rightarrow> (Inl all_failed, s4))))"
  shows "\<exists>k. requests (snd r) = requests s1 @ map (request_for c b f) (take k bs) \<and>
     (case fst r of
        Inr u \<Rightarrow> take k (answers w c b f (fetched s1) bs) = replicate (k - 1) None @ [Some u]
      | Inl e \<Rightarrow> e = all_failed \<and> k = length bs \<and>
                 answers w c b f (fetched s1) bs = replicate k None)"
proof -
  define a1 where "a1 = returned (catbox_outcome (net w (fetched s1) (catbox_request b f)))"
  define a2 where
    "a2 = returned (tmpfiles_outcome (net w (Suc (fetched s1)) (tmpfiles_request b f)))"
  define a3 where
    "a3 = returned (transfer_outcome (net w (Suc (Suc (fetched s1))) (transfer_request b f)))"
  have ans: "answers w c b f (fetched s1) bs = [a1, a2, a3]"
    by (simp add: bs_def a1_def a2_def a3_def)
  show ?thesis
  proof (cases a1)
    case (Some u)
    then have "fst r = Inr u" "requests (snd r) = requests s1 @ [catbox_request b f]"
      by (simp_all add: r_def split_beta a1_def)
    with Some show ?thesis
      unfolding ans by (intro exI [of _ 1]) (simp add: bs_def)
  next
    case n1: None
    show ?thesis
    proof (cases a2)
      case (Some u)
      with n1 have "fst r = Inr u"
        "requests (snd r) = requests s1 @ [catbox_request b f, tmpfiles_request b f]"
        by (simp_all add: r_def split_beta a1_def a2_def)
      with Some n1 show ?thesis
        unfolding ans by (intro exI [of _ 2]) (simp add: bs_def numeral_2_eq_2)
    next
      case n2: None
      show ?thesis
      proof (cases a3)
        case (Some u)
        with n1 n2 have "fst r = Inr u"
          "requests (snd r) =
             requests s1 @ [catbox_request b f, tmpfiles_request b f, transfer_request b f]"
          by (simp_all add: r_def split_beta a1_def a2_def a3_def)
        with Some n1 n2 show ?thesis
          unfolding ans by (intro exI [of _ 3]) (simp add: bs_def numeral_3_eq_3)
      next
        case None
        with n1 n2 have "fst r = Inl all_failed"
          "requests (snd r) =
             requests s1 @ [catbox_request b f, tmpfiles_request b f, transfer_request b f]"
          by (simp_all add: r_def split_beta a1_def a2_def a3_def)
        with None n1 n2 show ?thesis
          unfolding ans by (intro exI [of _ 3]) (simp add: bs_def numeral_3_eq_3)
      qed
    qed
  qed
qed

lemma upload_chain:
  "\<exists>k. requests (snd (uploadToReplicate c w b f s))
          = requests s @ map (request_for c b f) (take k (chain c)) \<and>
     (case fst (uploadToReplicate c w b f s) of
        Inr u \<Rightarrow> take k (answers w c b f (fetched s) (chain c)) = replicate (k - 1) None @ [Some u]
      | Inl e \<Rightarrow> e = all_failed \<and> k = length (chain c) \<and>
                 answers w c b f (fetched s) (chain c) = replicate k None)"
proof (cases "cloudinary_configured c")
  case False
  then have ch: "chain c = [Catbox, Tmpfiles, Transfer]"
    by (simp add: chain_def)
  from False show ?thesis
    unfolding ch using three_hosts [of w b f s c]
    by (simp add: uploadToReplicate_def try_cloudinary_off)
next
  case True
  define a0 where
    "a0 = returned (cloudinary_outcome (net w (fetched s) (cloudinary_request c b f)))"
  define s1 where "s1 = snd (try_cloudinary c w b f s)"
  have s1: "requests s1 = requests s @ [cloudinary_request c b f]" "fetched s1 = Suc (fetched s)"
    and t0: "try_cloudinary c w b f s = (a0, s1)"
    using try_cloudinary_on [OF True, of w b f s] by (simp_all add: s1_def a0_def prod_eq_iff)
  have ch: "chain c = [Cloudinary, Catbox, Tmpfiles, Transfer]"
    using True by (simp add: chain_def)
  show ?thesis
  proof (cases a0)
    case (Some u)
    with t0 s1 show ?thesis
      unfolding ch by (intro exI [of _ 1]) (simp add: uploadToReplicate_def a0_def)
  next
    case None
    from three_hosts [of w b f s1 c] obtain k where
      k: "requests (snd (uploadToReplicate c w b f s))
            = requests s1 @ map (request_for c b f) (take k [Catbox, Tmpfiles, Transfer])"
         "(case fst (uploadToReplicate c w b f s) of
             Inr u \<Rightarrow> take k (answers w c b f (fetched s1) [Catbox, Tmpfiles, Transfer])
                        = replicate (k - 1) None @ [Some u]
           | Inl e \<Rightarrow> e = all_failed \<and> k = length [Catbox, Tmpfiles, Transfer] \<and>
                 answers w c b f (fetched s1) [Catbox, Tmpfiles, Transfer] = replicate k None)"
      using t0 None by (auto simp: uploadToReplicate_def)
    show ?thesis
    proof (cases "fst (uploadToReplicate c w b f s)")
      case (Inl e)
      with k None s1 show ?thesis
        unfolding ch by (intro exI [of _ "Suc k"]) (simp add: a0_def)
    next
      case (Inr u)
      with k have "0 < k" by (cases k) auto
      then obtain k' where "k = Suc k'" by (cases k) auto
      with Inr k None s1 show ?thesis
        unfolding ch by (intro exI [of _ "Suc k"]) (simp add: a0_def)
    qed
  qed
qed

text \<open>
  C1. The requests of a call are, in order, those of the first \<open>k\<close> hosts of the
  chain (Cloudinary when it is configured, then catbox.moe, tmpfiles.org, transfer.sh),
  for some \<open>k\<close>. When the call returns a URL, the first \<open>k - 1\<close> hosts returned nothing
  and the URL is what the \<open>k\<close>-th host's branch returned: no later host is asked. When
  it throws, all hosts were asked, none returned, and the error is the aggregate
  one. The result is one value, a URL or an error.
\<close>

theorem upload_stops_at_first_success:
  "\<exists>k. requests (snd (uploadToReplicate c w b f s))
          = requests s @ map (request_for c b f) (take k (chain c)) \<and>
     (case fst (uploadToReplicate c w b f s) of
        Inr u \<Rightarrow> take k (answers w c b f (fetched s) (chain c)) = replicate (k - 1) None @ [Some u]
      | Inl e \<Rightarrow> e = all_failed \<and> k = length (chain c) \<and>
                 answers w c b f (fetched s) (chain c) = replicate k None)"
  by (rule upload_chain)

text \<open>
  C4. With Cloudinary configured and every host answering 503, the four hosts are
  asked, Cloudinary first, and the error thrown names catbox.moe, tmpfiles.org and
  transfer.sh but not Cloudinary.
\<close>

theorem aggregate_error_leaves_out_cloudinary:
  "fst (uploadToReplicate with_cloudinary all_down [] (Some ''a.mp4'') fresh)
     = Inl (Error ''All upload strategies failed (catbox.moe, tmpfiles.org, transfer.sh).'') \<and>
   map req_url (requests (snd (uploadToReplicate with_cloudinary all_down [] (Some ''a.mp4'') fresh)))
     = [''https://api.cloudinary.com/v1_1/demo/video/upload'', ''https://catbox.moe/user/api.php'',
        ''https://tmpfiles.org/api/v1/upload'', ''https://transfer.sh/a.mp4''] \<and>
   str_includes (toLowerCase ''All upload strategies failed (catbox.moe, tmpfiles.org, transfer.sh).'')
     ''cloudinary'' = False"
  by code_simp

section \<open>The upload chain: the links returned\<close>

lemma startsWith_append: "startsWith (p @ xs) p"
  by (simp add: startsWith_def)

lemma startsWith_decompose: "startsWith u p \<Longrightarrow> u = p @ drop (length p) u"
  by (metis append_take_drop_id startsWith_def)

lemma to_https_idem: "to_https (to_https x) = to_https x"
  by (simp add: to_https_def startsWith_def)

lemma to_https_not_http: "\<not> startsWith (to_https x) ''http://''"
  by (simp add: to_https_def startsWith_def)

lemma to_https_fixed: "\<not> startsWith x ''http://'' \<Longrightarrow> to_https x = x"
  by (simp add: to_https_def)

lemma to_https_empty: "to_https x = [] \<longleftrightarrow> x = []"
  by (auto simp: to_https_def startsWith_def)

lemma tmpfiles_direct_not_http: "\<not> startsWith (tmpfiles_direct x) ''http://''"
  by (simp add: tmpfiles_direct_def Let_def to_https_not_http split: option.splits)
     (simp add: startsWith_def)

lemma returned_not_http:
  "returned (outcome_of h resp) = Some u \<Longrightarrow> \<not> startsWith u ''http://''"
proof (cases h)
  case Cloudinary
  assume "returned (outcome_of h resp) = Some u"
  with Cloudinary show ?thesis
    by (auto simp: cloudinary_outcome_def Let_def to_https_not_http
             split: response.splits if_splits sum.splits js_value.splits)
next
  case Catbox
  assume "returned (outcome_of h resp) = Some u"
  with Catbox show ?thesis
    by (auto simp: catbox_outcome_def Let_def to_https_not_http
             split: response.splits if_splits sum.splits)
next
  case Tmpfiles
  assume "returned (outcome_of h resp) = Some u"
  with Tmpfiles show ?thesis
    by (auto simp: tmpfiles_outcome_def Let_def tmpfiles_direct_not_http
             split: response.splits if_splits js_value.splits)
next
  case Transfer
  assume "returned (outcome_of h resp) = Some u"
  with Transfer show ?thesis
    by (auto simp: transfer_outcome_def to_https_not_http
             split: response.splits if_splits sum.splits)
qed

lemma answers_from_outcomes:
  "x \<in> set (answers w c b f i hs) \<Longrightarrow> \<exists>h resp. x = returned (outcome_of h resp)"
  by (induction hs arbitrary: i) auto

lemma upload_result_from_some_host:
  assumes "fst (uploadToReplicate c w b f s) = Inr u"
  shows "\<exists>h resp. returned (outcome_of h resp) = Some u"
proof -
  from upload_chain [of c w b f s] assms obtain k where
    "take k (answers w c b f (fetched s) (chain c)) = replicate (k - 1) None @ [Some u]"
    by auto
  then have "Some u \<in> set (take k (answers w c b f (fetched s) (chain c)))"
    by simp
  then have "Some u \<in> set (answers w c b f (fetched s) (chain c))"
    by (rule in_set_takeD)
  from answers_from_outcomes [OF this] show ?thesis
    by metis
qed

text \<open>
  C8, as stated, fails: tmpfiles.org answering with an \<^verbatim>\<open>ftp://\<close> link, the chain returns
  that link as it is.
\<close>

theorem returned_url_keeps_other_scheme:
  "fst (uploadToReplicate without_cloudinary odd_scheme [] (Some ''a.mp4'') fresh)
     = Inr ''ftp://tmpfiles.org/123/a.mp4'' \<and>
   startsWith ''ftp://tmpfiles.org/123/a.mp4'' ''https://'' = False"
  by code_simp

text \<open>
  C8, amended. The normalisation rewrites a leading \<^verbatim>\<open>http://\<close> into \<^verbatim>\<open>https://\<close> and
  leaves every other string as it is; it is idempotent; and every URL the chain
  returns is normalised: it does not begin with \<^verbatim>\<open>http://\<close>.
\<close>

theorem returned_url_is_normalised:
  "(fst (uploadToReplicate c w b f s) = Inr u \<longrightarrow> \<not> startsWith u ''http://'' \<and> to_https u = u) \<and>
   to_https (to_https x) = to_https x \<and>
   to_https (''http://'' @ y) = ''https://'' @ y \<and>
   (\<not> startsWith x ''http://'' \<longrightarrow> to_https x = x)"
proof -
  have "\<not> startsWith u ''http://'' \<and> to_https u = u"
    if "fst (uploadToReplicate c w b f s) = Inr u"
    using upload_result_from_some_host [OF that] returned_not_http to_https_fixed by blast
  moreover have "to_https (''http://'' @ y) = ''https://'' @ y"
    by (simp add: to_https_def startsWith_def)
  ultimately show ?thesis
    by (simp add: to_https_idem to_https_fixed)
qed

theorem returned_url_is_normalised_witness:
  "fst (uploadToReplicate without_cloudinary plain_link [] (Some ''a.mp4'') fresh)
     = Inr ''https://files.catbox.moe/abc123.mp4'' \<and>
   startsWith ''https://files.catbox.moe/abc123.mp4'' ''http://'' = False \<and>
   to_https ''https://files.catbox.moe/abc123.mp4'' = ''https://files.catbox.moe/abc123.mp4'' \<and>
   to_https (to_https ''http://files.catbox.moe/abc123.mp4'')
     = to_https ''http://files.catbox.moe/abc123.mp4'' \<and>
   to_https ''ftp://tmpfiles.org/123/a.mp4'' = ''ftp://tmpfiles.org/123/a.mp4''"
proof -
  have r: "fst (uploadToReplicate without_cloudinary plain_link [] (Some ''a.mp4'') fresh)
     = Inr ''https://files.catbox.moe/abc123.mp4''"
    by code_simp
  have n: "\<not> startsWith ''ftp://tmpfiles.org/123/a.mp4'' ''http://''"
    by (simp add: startsWith_def)
  from returned_url_is_normalised
         [of without_cloudinary plain_link "[]" "Some ''a.mp4''" fresh
             "''https://files.catbox.moe/abc123.mp4''" "''ftp://tmpfiles.org/123/a.mp4''"
             "''files.catbox.moe/abc123.mp4''"] r n
  show ?thesis
    by simp
qed

lemma tmpfiles_prefix_length: "length ''https://tmpfiles.org/'' = 21"
  by simp

lemma tmpfiles_match_segment:
  assumes "u = ''https://tmpfiles.org/'' @ seg @ rest" and "seg \<noteq> []"
    and "set seg \<inter> set ''/?#'' = {}" and "rest = [] \<or> hd rest \<in> set ''/?#''"
  shows "tmpfiles_match u = Some seg"
proof -
  have "drop 21 u = seg @ rest"
    using assms(1) by simp
  moreover have "takeWhile (\<lambda>ch. ch \<notin> set ''/?#'') (seg @ rest) = seg"
  proof -
    have "takeWhile (\<lambda>ch. ch \<notin> set ''/?#'') rest = []"
      using assms(4) by (cases rest) auto
    moreover have "\<And>x. x \<in> set seg \<Longrightarrow> x \<notin> set ''/?#''"
      using assms(3) by blast
    ultimately show ?thesis
      by (simp add: takeWhile_append2)
  qed
  moreover have "startsWith u ''https://tmpfiles.org/''"
    unfolding assms(1) by (rule startsWith_append)
  ultimately show ?thesis
    using assms(2) by (simp add: tmpfiles_match_def)
qed

lemma tmpfiles_match_none:
  assumes "\<nexists>ch rest. u = ''https://tmpfiles.org/'' @ ch # rest \<and> ch \<notin> set ''/?#''"
  shows "tmpfiles_match u = None"
proof (cases "startsWith u ''https://tmpfiles.org/''")
  case False
  then show ?thesis by (simp add: tmpfiles_match_def)
next
  case True
  then have "u = ''https://tmpfiles.org/'' @ drop (length ''https://tmpfiles.org/'') u"
    by (rule startsWith_decompose)
  then have u: "u = ''https://tmpfiles.org/'' @ drop 21 u"
    unfolding tmpfiles_prefix_length .
  have "takeWhile (\<lambda>ch. ch \<notin> set ''/?#'') (drop 21 u) = []"
  proof (cases "drop 21 u")
    case Nil
    then show ?thesis by simp
  next
    case (Cons ch rest)
    with u assms have "ch \<in> set ''/?#''"
      by metis
    with Cons show ?thesis by simp
  qed
  then show ?thesis
    by (simp add: tmpfiles_match_def)
qed

lemma try_tmpfiles_link:
  assumes "net w (fetched s) (tmpfiles_request b f) = Response r" and "ok r"
    and "res_json r = Inr j"
    and "or_else (own_prop (own_prop j ''data'') ''url'') (own_prop j ''url'') = JStr u"
    and "u \<noteq> []"
  shows "fst (try_tmpfiles w b f s) = Some (tmpfiles_direct u)"
  using assms by (simp add: tmpfiles_outcome_def json_or_empty_def)

text \<open>
  C10. In the tmpfiles.org branch, on a 2xx response whose JSON carries a non-empty
  string \<open>u\<close> as \<^verbatim>\<open>data.url\<close> (or \<^verbatim>\<open>url\<close>): when \<open>u\<close>, its scheme coerced, reads
  \<^verbatim>\<open>https://tmpfiles.org/\<close>, then a non-empty segment free of \<^verbatim>\<open>/\<close>, \<^verbatim>\<open>?\<close> and \<^verbatim>\<open>#\<close>, then
  nothing or a rest that one of these three opens, the branch returns
  \<^verbatim>\<open>https://tmpfiles.org/dl/\<close> and the segment, the rest dropped; when \<open>u\<close> does not
  read so, the branch returns \<open>u\<close> with its scheme coerced and nothing else changed.
\<close>

theorem tmpfiles_link_becomes_direct:
  assumes "net w (fetched s) (tmpfiles_request b f) = Response r" and "ok r"
    and "res_json r = Inr j"
    and "or_else (own_prop (own_prop j ''data'') ''url'') (own_prop j ''url'') = JStr u"
    and "u \<noteq> []"
  shows "(\<forall>seg rest.
            to_https u = ''https://tmpfiles.org/'' @ seg @ rest \<and> seg \<noteq> [] \<and>
            set seg \<inter> set ''/?#'' = {} \<and> (rest = [] \<or> hd rest \<in> set ''/?#'')
            \<longrightarrow> fst (try_tmpfiles w b f s) = Some (''https://tmpfiles.org/dl/'' @ seg)) \<and>
         ((\<nexists>ch rest. to_https u = ''https://tmpfiles.org/'' @ ch # rest \<and> ch \<notin> set ''/?#'')
            \<longrightarrow> fst (try_tmpfiles w b f s) = Some (to_https u))"
proof -
  have res: "fst (try_tmpfiles w b f s) = Some (tmpfiles_direct u)"
    using assms by (rule try_tmpfiles_link)
  have "tmpfiles_direct u = ''https://tmpfiles.org/dl/'' @ seg"
    if "to_https u = ''https://tmpfiles.org/'' @ seg @ rest" "seg \<noteq> []"
      "set seg \<inter> set ''/?#'' = {}" "rest = [] \<or> hd rest \<in> set ''/?#''" for seg rest
    using tmpfiles_match_segment [OF that] by (simp add: tmpfiles_direct_def)
  moreover have "tmpfiles_direct u = to_https u"
    if "\<nexists>ch rest. to_https u = ''https://tmpfiles.org/'' @ ch # rest \<and> ch \<notin> set ''/?#''"
    using tmpfiles_match_none [OF that] by (simp add: tmpfiles_direct_def)
  ultimately show ?thesis
    unfolding res by blast
qed

theorem tmpfiles_link_becomes_direct_witness:
  "fst (try_tmpfiles landing_page [] (Some ''a.mp4'') fresh) = Some ''https://tmpfiles.org/dl/123'' \<and>
   fst (uploadToReplicate without_cloudinary landing_page [] (Some ''a.mp4'') fresh)
     = Inr ''https://tmpfiles.org/dl/123'' \<and>
   fst (try_tmpfiles odd_scheme [] (Some ''a.mp4'') fresh) = Some ''ftp://tmpfiles.org/123/a.mp4''"
proof -
  let ?j = "JObj [(''status'', JStr ''success''),
                  (''data'', JObj [(''url'', JStr ''http://tmpfiles.org/123/a.mp4?x=1#t'')])]"
  let ?r = "\<lparr>res_status = 200, res_text = Inr ''{...}'', res_json = Inr ?j\<rparr>"
  have "net landing_page (fetched fresh) (tmpfiles_request [] (Some ''a.mp4'')) = Response ?r"
    by (simp add: landing_page_def answering_def tmpfiles_request_def json_body_def)
  moreover have "ok ?r" by (simp add: ok_def)
  moreover have "or_else (own_prop (own_prop ?j ''data'') ''url'') (own_prop ?j ''url'')
                   = JStr ''http://tmpfiles.org/123/a.mp4?x=1#t''"
    by (simp add: or_else_def)
  ultimately have a:
    "\<forall>seg rest.
       to_https ''http://tmpfiles.org/123/a.mp4?x=1#t'' = ''https://tmpfiles.org/'' @ seg @ rest \<and>
       seg \<noteq> [] \<and> set seg \<inter> set ''/?#'' = {} \<and> (rest = [] \<or> hd rest \<in> set ''/?#'')
       \<longrightarrow> fst (try_tmpfiles landing_page [] (Some ''a.mp4'') fresh)
             = Some (''https://tmpfiles.org/dl/'' @ seg)"
    using tmpfiles_link_becomes_direct
            [of landing_page fresh "[]" "Some ''a.mp4''" ?r ?j "''http://tmpfiles.org/123/a.mp4?x=1#t''"]
    by simp
  have "to_https ''http://tmpfiles.org/123/a.mp4?x=1#t''
          = ''https://tmpfiles.org/'' @ ''123'' @ ''/a.mp4?x=1#t''"
    by (simp add: to_https_def startsWith_def)
  with a have "fst (try_tmpfiles landing_page [] (Some ''a.mp4'') fresh)
                 = Some (''https://tmpfiles.org/dl/'' @ ''123'')"
    by (elim allE [of _ "''123''"] allE [of _ "''/a.mp4?x=1#t''"]) simp
  moreover have "fst (uploadToReplicate without_cloudinary landing_page [] (Some ''a.mp4'') fresh)
     = Inr ''https://tmpfiles.org/dl/123''"
    by code_simp
  moreover have "fst (try_tmpfiles odd_scheme [] (Some ''a.mp4'') fresh)
                   = Some ''ftp://tmpfiles.org/123/a.mp4''"
    by code_simp
  ultimately show ?thesis by simp
qed

section \<open>The upload chain: responses without a link\<close>

lemma length_answers: "length (answers w c b f n hs) = length hs"
  by (induction hs arbitrary: n) auto

lemma nth_answers:
  "j < length hs \<Longrightarrow>
     answers w c b f n hs ! j
       = returned (outcome_of (hs ! j) (net w (n + j) (request_for c b f (hs ! j))))"
proof (induction hs arbitrary: n j)
  case Nil
  then show ?case by simp
next
  case (Cons h hs)
  then show ?case by (cases j) auto
qed

lemma lacks_url_fails:
  assumes "ok r" and "lacks_url h r"
  shows "returned (outcome_of h (Response r)) = None"
proof (cases h)
  case Cloudinary
  with assms show ?thesis
    by (auto simp: cloudinary_outcome_def Let_def get_prop_def or_else_def to_https_def
                   startsWith_def)
next
  case Catbox
  with assms show ?thesis
    by (auto simp: catbox_outcome_def Let_def split: sum.splits)
next
  case Tmpfiles
  with assms show ?thesis
    by (auto simp: tmpfiles_outcome_def Let_def or_else_def)
next
  case Transfer
  with assms show ?thesis by simp
qed

lemma transfer_is_last:
  "i < length (chain c) \<Longrightarrow> chain c ! i \<noteq> Transfer \<Longrightarrow> i + 2 \<le> length (chain c)"
  by (cases "cloudinary_configured c")
     (auto simp: chain_def nth_Cons split: nat.splits)

lemma failed_attempt_moves_on:
  assumes i: "i < length (chain c)"
    and before: "take i (answers w c b f (fetched s) (chain c)) = replicate i None"
    and here: "answers w c b f (fetched s) (chain c) ! i = None"
    and more: "i + 2 \<le> length (chain c)"
  shows "\<exists>k\<ge>i + 2. requests (snd (uploadToReplicate c w b f s))
                      = requests s @ map (request_for c b f) (take k (chain c))"
proof -
  let ?A = "answers w c b f (fetched s) (chain c)"
  have none: "?A ! j = None" if "j \<le> i" for j
  proof (cases "j = i")
    case True
    with here show ?thesis by simp
  next
    case False
    with that have "j < i" by simp
    then have "?A ! j = take i ?A ! j" by simp
    also have "\<dots> = None"
      unfolding before using \<open>j < i\<close> by simp
    finally show ?thesis .
  qed
  from upload_chain [of c w b f s] obtain k where
    req: "requests (snd (uploadToReplicate c w b f s))
            = requests s @ map (request_for c b f) (take k (chain c))"
    and res: "case fst (uploadToReplicate c w b f s) of
                Inr u \<Rightarrow> take k ?A = replicate (k - 1) None @ [Some u]
              | Inl e \<Rightarrow> e = all_failed \<and> k = length (chain c) \<and> ?A = replicate k None"
    by blast
  have "i + 2 \<le> k"
  proof (cases "fst (uploadToReplicate c w b f s)")
    case (Inl e)
    with res more show ?thesis by simp
  next
    case (Inr u)
    with res have t: "take k ?A = replicate (k - 1) None @ [Some u]" by simp
    then have "length (take k ?A) = k - 1 + 1" by simp
    then have k: "0 < k" "k \<le> length ?A" by auto
    have "take k ?A ! (k - 1) = Some u"
      unfolding t by (simp add: nth_append)
    with k have "?A ! (k - 1) = Some u" by simp
    with none [of "k - 1"] have "i < k - 1" by fastforce
    then show ?thesis by simp
  qed
  with req show ?thesis by blast
qed

text \<open>
  C5, as stated, fails: tmpfiles.org answering 200 with a string that does not match
  its link pattern, the chain returns that string as the result.
\<close>

theorem stray_tmpfiles_link_is_returned:
  "tmpfiles_match (to_https ''upload rejected'') = None \<and>
   fst (uploadToReplicate without_cloudinary stray_link [] (Some ''a.mp4'') fresh)
     = Inr ''upload rejected''"
  by code_simp

text \<open>
  C5, amended. Take the \<open>i\<close>-th host of the chain, reached because no earlier host
  returned a link, and let it answer 2xx without a link (\<open>lacks_url\<close>: for Cloudinary and
  tmpfiles.org no parsable body or no non-empty value under the keys read, for catbox.moe
  no body or one that is not a \<^verbatim>\<open>https://files.catbox.moe/\<close> link). Then the branch
  returns nothing and the request of the next host is sent. Nothing is said of
  transfer.sh, the last host, for which \<open>lacks_url\<close> never holds.
\<close>

theorem response_without_link_is_a_failed_attempt:
  assumes "i < length (chain c)"
    and "take i (answers w c b f (fetched s) (chain c)) = replicate i None"
    and "net w (fetched s + i) (request_for c b f (chain c ! i)) = Response r"
    and "ok r" and "lacks_url (chain c ! i) r"
  shows "returned (outcome_of (chain c ! i) (Response r)) = None \<and>
         (\<exists>k\<ge>i + 2. requests (snd (uploadToReplicate c w b f s))
                        = requests s @ map (request_for c b f) (take k (chain c)))"
proof -
  have fails: "returned (outcome_of (chain c ! i) (Response r)) = None"
    using assms(4,5) by (rule lacks_url_fails)
  with assms(1,3) have here: "answers w c b f (fetched s) (chain c) ! i = None"
    by (simp add: nth_answers)
  have "chain c ! i \<noteq> Transfer"
    using assms(5) by auto
  with assms(1) have "i + 2 \<le> length (chain c)"
    by (rule transfer_is_last)
  with assms(1,2) here fails show ?thesis
    using failed_attempt_moves_on by blast
qed

theorem response_without_link_is_a_failed_attempt_witness:
  "returned (outcome_of Catbox (plain 200 [])) = None \<and>
   (\<exists>k\<ge>2. requests (snd (uploadToReplicate without_cloudinary empty_catbox [] (Some ''a.mp4'') fresh))
             = map (request_for without_cloudinary [] (Some ''a.mp4''))
                 (take k [Catbox, Tmpfiles, Transfer])) \<and>
   fst (uploadToReplicate without_cloudinary empty_catbox [] (Some ''a.mp4'') fresh)
     = Inr ''https://tmpfiles.org/dl/123''"
proof -
  let ?r = "\<lparr>res_status = 200, res_text = Inr [], res_json = Inl (SyntaxError ''Unexpected token'')\<rparr>"
  have ch: "chain without_cloudinary = [Catbox, Tmpfiles, Transfer]"
    by (simp add: chain_def cloudinary_configured_def without_cloudinary_def)
  have "net empty_catbox (fetched fresh + 0)
          (request_for without_cloudinary [] (Some ''a.mp4'') (chain without_cloudinary ! 0))
        = Response ?r"
    by (simp add: ch empty_catbox_def answering_def catbox_request_def plain_def)
  moreover have "ok ?r" by (simp add: ok_def)
  moreover have "lacks_url (chain without_cloudinary ! 0) ?r"
    by (simp add: ch trim_def to_https_def startsWith_def)
  ultimately have
    "returned (outcome_of (chain without_cloudinary ! 0) (Response ?r)) = None \<and>
     (\<exists>k\<ge>0 + 2. requests (snd (uploadToReplicate without_cloudinary empty_catbox [] (Some ''a.mp4'') fresh))
               = requests fresh @ map (request_for without_cloudinary [] (Some ''a.mp4''))
                   (take k (chain without_cloudinary)))"
    using response_without_link_is_a_failed_attempt
            [of 0 without_cloudinary empty_catbox "[]" "Some ''a.mp4''" fresh ?r]
    by (simp add: ch)
  moreover have "requests fresh = []"
    by (simp add: fresh_def requests_def)
  moreover have "fst (uploadToReplicate without_cloudinary empty_catbox [] (Some ''a.mp4'') fresh)
     = Inr ''https://tmpfiles.org/dl/123''"
    by code_simp
  ultimately show ?thesis
    by (simp add: ch plain_def numeral_2_eq_2)
qed

section \<open>The model identifier and the endpoint\<close>

lemma split_on_before:
  "c \<notin> set m \<Longrightarrow> split_on c (m @ c # xs) = m # split_on c xs"
  by (induction m) auto

lemma split_on_nonempty: "split_on c xs \<noteq> []"
  by (induction xs) (auto split: list.splits)

lemma split_on_head:
  "c \<notin> set v \<Longrightarrow> rest = [] \<or> hd rest = c \<Longrightarrow> hd (split_on c (v @ rest)) = v"
proof (induction v)
  case Nil
  then show ?case by (cases rest) auto
next
  case (Cons x v)
  then show ?case
    using split_on_nonempty [of c "v @ rest"] by (auto split: list.splits)
qed

lemma split_on_none: "c \<notin> set v \<Longrightarrow> split_on c v = [v]"
  using split_on_head [of c v "[]"] split_on_nonempty [of c v]
  by (induction v) (auto split: list.splits)

lemma parse_colon:
  assumes "CHR '':'' \<notin> set m" and "CHR '':'' \<notin> set v" and "rest = [] \<or> hd rest = CHR '':''"
  shows "parseReplicateModelVersion (Some (m @ '':'' @ v @ rest))
           = \<lparr>model = (if m = [] then None else Some m),
              version = (if v = [] then None else Some v)\<rparr>"
proof -
  obtain ps where ps: "split_on CHR '':'' (v @ rest) = v # ps"
    using split_on_head [OF assms(2,3)] split_on_nonempty [of "CHR '':''" "v @ rest"]
    by (cases "split_on CHR '':'' (v @ rest)") auto
  have "split_on CHR '':'' (m @ CHR '':'' # v @ rest) = m # v # ps"
    using split_on_before [OF assms(1)] ps by simp
  then show ?thesis
    by (simp add: parseReplicateModelVersion_def Let_def nth_opt_def truthy_str_def present_def)
qed

lemma parse_bare:
  "CHR '':'' \<notin> set v \<Longrightarrow>
     model (parseReplicateModelVersion (Some v)) = None \<and>
     version (parseReplicateModelVersion (Some v)) = (if v = [] then None else Some v)"
  by (simp add: parseReplicateModelVersion_def)

text \<open>
  C6, as stated, fails: the identifier \<^verbatim>\<open>:abc123\<close> contains a colon, the model parsed
  from it is null and the submission goes to the generic endpoint.
\<close>

theorem colon_with_empty_model_goes_generic:
  "CHR '':'' \<in> set '':abc123'' \<and>
   parseReplicateModelVersion (Some '':abc123'') = \<lparr>model = None, version = Some ''abc123''\<rparr> \<and>
   req_url (start_request (versioned '':abc123'') ''https://example.com/in.mp4'')
     = ''https://api.replicate.com/v1/predictions''"
  by code_simp

text \<open>
  C6, amended. An identifier with a colon is split at its colons: the model is what
  stands before the first colon and the version what stands between the first colon and
  the second (or the end), each null when empty. With a model that is not empty the
  submission goes to \<^verbatim>\<open>/v1/models/<model>/versions/<v>/predictions\<close>, \<open>v\<close> being the version,
  or the whole identifier when the version is empty; with an empty model it goes to
  the generic endpoint. An identifier without a colon has a null model and goes to the
  generic endpoint.
\<close>

theorem endpoint_follows_model_identifier:
  "(REPLICATE_MODEL_VERSION c = Some (m @ '':'' @ v @ rest) \<and>
    CHR '':'' \<notin> set m \<and> CHR '':'' \<notin> set v \<and> (rest = [] \<or> hd rest = CHR '':'')
    \<longrightarrow> REPLICATE_MODEL_SLUG c = (if m = [] then None else Some m) \<and>
        REPLICATE_VERSION_ID c = (if v = [] then None else Some v) \<and>
        req_url (start_request c videoUrl)
          = (if m = [] then ''https://api.replicate.com/v1/predictions''
             else ''https://api.replicate.com/v1/models/'' @ m @ ''/versions/''
                  @ (if v = [] then m @ '':'' @ v @ rest else v) @ ''/predictions'')) \<and>
   (REPLICATE_MODEL_VERSION c = Some b \<and> CHR '':'' \<notin> set b
    \<longrightarrow> REPLICATE_MODEL_SLUG c = None \<and>
        req_url (start_request c videoUrl) = ''https://api.replicate.com/v1/predictions'')"
proof (intro conjI impI)
  assume a: "REPLICATE_MODEL_VERSION c = Some (m @ '':'' @ v @ rest) \<and>
    CHR '':'' \<notin> set m \<and> CHR '':'' \<notin> set v \<and> (rest = [] \<or> hd rest = CHR '':'')"
  then have p: "parseReplicateModelVersion (REPLICATE_MODEL_VERSION c)
           = \<lparr>model = (if m = [] then None else Some m),
              version = (if v = [] then None else Some v)\<rparr>"
    using parse_colon [of m v rest] by simp
  then show "REPLICATE_MODEL_SLUG c = (if m = [] then None else Some m)"
    and "REPLICATE_VERSION_ID c = (if v = [] then None else Some v)"
    by (simp_all add: REPLICATE_MODEL_SLUG_def REPLICATE_VERSION_ID_def)
  from p a show "req_url (start_request c videoUrl)
          = (if m = [] then ''https://api.replicate.com/v1/predictions''
             else ''https://api.replicate.com/v1/models/'' @ m @ ''/versions/''
                  @ (if v = [] then m @ '':'' @ v @ rest else v) @ ''/predictions'')"
    by (simp add: start_request_def endpoint_def REPLICATE_MODEL_SLUG_def
          REPLICATE_VERSION_ID_def present_def first_present_def template_def)
next
  assume a: "REPLICATE_MODEL_VERSION c = Some b \<and> CHR '':'' \<notin> set b"
  then show "REPLICATE_MODEL_SLUG c = None"
    using parse_bare [of b] by (simp add: REPLICATE_MODEL_SLUG_def)
  then show "req_url (start_request c videoUrl) = ''https://api.replicate.com/v1/predictions''"
    by (simp add: start_request_def endpoint_def present_def)
qed

theorem endpoint_follows_model_identifier_witness:
  "REPLICATE_MODEL_SLUG (versioned ''owner/name:abc123'') = Some ''owner/name'' \<and>
   REPLICATE_VERSION_ID (versioned ''owner/name:abc123'') = Some ''abc123'' \<and>
   req_url (start_request (versioned ''owner/name:abc123'') ''https://example.com/in.mp4'')
     = ''https://api.replicate.com/v1/models/owner/name/versions/abc123/predictions'' \<and>
   REPLICATE_MODEL_SLUG (versioned ''abc123'') = None \<and>
   req_url (start_request (versioned ''abc123'') ''https://example.com/in.mp4'')
     = ''https://api.replicate.com/v1/predictions''"
proof -
  have 1: "REPLICATE_MODEL_VERSION (versioned ''owner/name:abc123'')
             = Some (''owner/name'' @ '':'' @ ''abc123'' @ [])"
    and 2: "REPLICATE_MODEL_VERSION (versioned ''abc123'') = Some ''abc123''"
    by (simp_all add: versioned_def)
  from endpoint_follows_model_identifier
         [of "versioned ''owner/name:abc123''" "''owner/name''" "''abc123''" "[]"
             "''https://example.com/in.mp4''" "''owner/name:abc123''"] 1
  have a: "REPLICATE_MODEL_SLUG (versioned ''owner/name:abc123'') = Some ''owner/name'' \<and>
     REPLICATE_VERSION_ID (versioned ''owner/name:abc123'') = Some ''abc123'' \<and>
     req_url (start_request (versioned ''owner/name:abc123'') ''https://example.com/in.mp4'')
       = ''https://api.replicate.com/v1/models/owner/name/versions/abc123/predictions''"
    by simp
  from endpoint_follows_model_identifier
         [of "versioned ''abc123''" "[]" "[]" "[]" "''https://example.com/in.mp4''" "''abc123''"] 2
  have "REPLICATE_MODEL_SLUG (versioned ''abc123'') = None \<and>
     req_url (start_request (versioned ''abc123'') ''https://example.com/in.mp4'')
       = ''https://api.replicate.com/v1/predictions''"
    by simp
  with a show ?thesis by simp
qed

section \<open>The polling loop\<close>

lemma polled_simps [simp]:
  "requests (polled c w p t s) = requests s @ [poll_request c p]"
  "fetched (polled c w p t s) = Suc (fetched s)"
  "now (polled c w p t s) = now s + 2000 + took w (fetched s)"
  "trace (polled c w p t s) = trace s @ [Sleep 2000, Fetch (poll_request c p)]"
  by (simp_all add: polled_def requests_def)

lemma started_simps [simp]:
  "requests (started c w u n s) = requests s @ [start_request c u]"
  "fetched (started c w u n s) = Suc (fetched s)"
  "now (started c w u n s) = now s + took w (fetched s)"
  by (simp_all add: started_def requests_def)

lemma own_prop_nullish: "nullish d \<Longrightarrow> own_prop d k = JUndefined"
  by (cases d) auto

lemma non_terminal_string: "non_terminal st \<Longrightarrow> \<exists>t. st = JStr t"
  by (auto simp: non_terminal_def)

lemma poll_loop_done:
  "\<not> non_terminal st \<Longrightarrow> poll_loop c w t0 pid (st, d) s = (Inr (st, d), s)"
  by (simp add: poll_loop.simps)

lemma poll_loop_late:
  "non_terminal st \<Longrightarrow> timeoutMs < now s - t0 \<Longrightarrow>
     poll_loop c w t0 pid (st, d) s
       = (Inl (Error ''Prediction timed out.''), onLog ''error: timed out'' s)"
  by (simp add: poll_loop.simps)

lemma poll_loop_turn:
  "non_terminal st \<Longrightarrow> now s - t0 \<le> timeoutMs \<Longrightarrow>
     poll_loop c w t0 pid (st, d) s
       = (case poll_once c w pid s of
            (Inl e, s') \<Rightarrow> (Inl e, s')
          | (Inr sd, s') \<Rightarrow> poll_loop c w t0 pid sd s')"
  by (subst poll_loop.simps) (simp add: not_less)

lemma poll_once_requests:
  "to_string pid = Some p \<Longrightarrow>
     requests (snd (poll_once c w pid s)) = requests s @ [poll_request c p]"
  by (auto simp: poll_once_def Let_def sleep_def onLog_def fetch_def requests_def
           split: prod.splits response.splits sum.splits option.splits)

lemma poll_once_answered:
  assumes "to_string pid = Some p" and "net w (fetched s) (poll_request c p) = Response r"
    and "ok r" and "res_json r = Inr d" and "own_prop d ''status'' = JStr t"
  shows "poll_once c w pid s = (Inr (JStr t, d), polled c w p t s)"
proof -
  have "\<not> nullish d"
    using assms(5) own_prop_nullish [of d "''status''"] by auto
  with assms show ?thesis
    by (simp add: poll_once_def Let_def sleep_def onLog_def fetch_def get_prop_def polled_def)
qed

lemma poll_once_status:
  "poll_once c w pid s = (Inr (st, d), s') \<Longrightarrow> own_prop d ''status'' = st"
  by (auto simp: poll_once_def Let_def get_prop_def
           split: prod.splits response.splits sum.splits option.splits if_splits)

lemma poll_loop_exit:
  "poll_loop c w t0 pid sd s = (Inr (st', d'), s') \<Longrightarrow>
     \<not> non_terminal st' \<and> (own_prop (snd sd) ''status'' = fst sd \<longrightarrow> own_prop d' ''status'' = st')"
proof (induction c w t0 pid sd s rule: poll_loop.induct)
  case (1 c w startedAt predictionId status lastData s)
  show ?case
  proof (cases "non_terminal status")
    case False
    with "1.prems" show ?thesis by (simp add: poll_loop_done)
  next
    case nt: True
    show ?thesis
    proof (cases "timeoutMs < now s - startedAt")
      case True
      with nt "1.prems" show ?thesis by (simp add: poll_loop_late)
    next
      case False
      obtain x y where xy: "poll_once c w predictionId s = (x, y)"
        by (cases "poll_once c w predictionId s")
      show ?thesis
      proof (cases x)
        case (Inl e)
        with nt False xy "1.prems" show ?thesis
          by (simp add: poll_loop_turn)
      next
        case (Inr sd)
        with nt False xy "1.prems" have "poll_loop c w startedAt predictionId sd y = (Inr (st', d'), s')"
          by (simp add: poll_loop_turn)
        from "1.IH" [OF nt False xy [symmetric] Inr this]
        have "\<not> non_terminal st'"
          and "own_prop (snd sd) ''status'' = fst sd \<longrightarrow> own_prop d' ''status'' = st'"
          by simp_all
        moreover have "own_prop (snd sd) ''status'' = fst sd"
          using poll_once_status [of c w predictionId s "fst sd" "snd sd" y] xy Inr by simp
        ultimately show ?thesis by simp
      qed
    qed
  qed
qed

lemma run_submitted:
  assumes "net w (fetched s) (start_request c u) = Response r" and "ok r"
    and "res_json r = Inr d" and "\<not> nullish d"
  shows "runPredictionWithUrl c w u s
           = (case poll_loop c w (now (started c w u (res_status r) s)) (own_prop d ''id'')
                     (own_prop d ''status'', d) (started c w u (res_status r) s) of
                (Inl e, s') \<Rightarrow> (Inl e, s')
              | (Inr (st, ld), s') \<Rightarrow> (finish st ld, s'))"
  using assms
  by (simp add: runPredictionWithUrl_def Let_def fetch_def onLog_def console_def get_prop_def
        started_def)

lemma run_returns_succeeded:
  assumes "fst (runPredictionWithUrl c w u s) = Inr x"
  shows "own_prop x ''status'' = JStr ''succeeded''"
proof -
  from assms obtain r d where
    r: "net w (fetched (console Log [Val (JStr ''Starting Replicate prediction -> endpoint:''),
                            Val (JStr (endpoint c)), Val (JStr ''input keys:''),
                            Val (JArr [JStr ''video''])]
           (onLog (''input: keys=video video='' @ u) (onLog (''start: POST '' @ endpoint c) s))))
          (start_request c u) = Response r"
    and "ok r" "res_json r = Inr d" "\<not> nullish d"
    by (auto simp: runPredictionWithUrl_def Let_def fetch_def get_prop_def
             split: response.splits if_splits sum.splits prod.splits)
  then have "net w (fetched s) (start_request c u) = Response r"
    by (simp add: console_def onLog_def)
  note eq = run_submitted [OF this \<open>ok r\<close> \<open>res_json r = Inr d\<close> \<open>\<not> nullish d\<close>]
  let ?s5 = "started c w u (res_status r) s"
  obtain y s' where l: "poll_loop c w (now ?s5) (own_prop d ''id'') (own_prop d ''status'', d) ?s5 = (y, s')"
    by (cases "poll_loop c w (now ?s5) (own_prop d ''id'') (own_prop d ''status'', d) ?s5")
  with eq assms obtain st ld where y: "y = Inr (st, ld)" and f: "finish st ld = Inr x"
    by (cases y) (auto split: prod.splits)
  from poll_loop_exit [OF l [unfolded y]] have "own_prop ld ''status'' = st"
    by simp
  with f show ?thesis
    by (auto simp: finish_def split: if_splits option.splits)
qed

lemma poll_once_printable:
  assumes "to_string pid = Some p" and "net w (fetched s) (poll_request c p) = Response r"
    and "ok r" and "res_json r = Inr d" and "\<not> nullish d"
    and "to_string (own_prop d ''status'') = Some t"
  shows "poll_once c w pid s = (Inr (own_prop d ''status'', d), polled c w p t s)"
  using assms
  by (simp add: poll_once_def Let_def sleep_def onLog_def fetch_def get_prop_def polled_def)

lemma non_terminal_not_nullish: "non_terminal (own_prop d ''status'') \<Longrightarrow> \<not> nullish d"
  using own_prop_nullish [of d "''status''"] by (auto simp: non_terminal_def)

lemma non_terminal_printable:
  "non_terminal st \<Longrightarrow> \<exists>t. to_string st = Some t"
  by (auto simp: non_terminal_def)

lemma poll_loop_follows:
  assumes pid: "to_string pid = Some p"
  shows "\<forall>i<length ds. \<exists>r. net w (fetched s + i) (poll_request c p) = Response r \<and> ok r \<and>
                          res_json r = Inr (ds ! i) \<Longrightarrow>
     \<forall>i<length ds. non_terminal (own_prop ((d # ds) ! i) ''status'') \<Longrightarrow>
     \<not> non_terminal (own_prop (last (d # ds)) ''status'') \<Longrightarrow>
     \<not> nullish (last (d # ds)) \<Longrightarrow>
     to_string (own_prop (last (d # ds)) ''status'') = Some a \<Longrightarrow>
     \<forall>i<length ds. now s - t0 + (\<Sum>j<i. 2000 + took w (fetched s + j)) \<le> timeoutMs \<Longrightarrow>
     t0 \<le> now s \<Longrightarrow>
     \<exists>s'. poll_loop c w t0 pid (own_prop d ''status'', d) s
            = (Inr (own_prop (last (d # ds)) ''status'', last (d # ds)), s') \<and>
          trace s' = trace s @ polls_trace c p (length ds) \<and>
          requests s' = requests s @ replicate (length ds) (poll_request c p)"
proof (induction ds arbitrary: d s)
  case Nil
  then show ?case
    by (simp add: poll_loop_done polls_trace_def)
next
  case (Cons d1 ds)
  have nt: "non_terminal (own_prop d ''status'')"
    using Cons.prems(2) by auto
  have within: "now s - t0 \<le> timeoutMs"
    using Cons.prems(6) by auto
  obtain r where r: "net w (fetched s) (poll_request c p) = Response r" "ok r"
      "res_json r = Inr d1"
    using Cons.prems(1) by auto
  have d1: "\<not> nullish d1" and "\<exists>t. to_string (own_prop d1 ''status'') = Some t"
  proof -
    show "\<not> nullish d1"
    proof (cases ds)
      case Nil
      with Cons.prems(4) show ?thesis by simp
    next
      case (Cons d2 ds')
      with Cons.prems(2) have "non_terminal (own_prop d1 ''status'')" by auto
      then show ?thesis by (rule non_terminal_not_nullish)
    qed
    show "\<exists>t. to_string (own_prop d1 ''status'') = Some t"
    proof (cases ds)
      case Nil
      with Cons.prems(5) show ?thesis by simp
    next
      case (Cons d2 ds')
      with Cons.prems(2) have "non_terminal (own_prop d1 ''status'')" by auto
      then show ?thesis by (rule non_terminal_printable)
    qed
  qed
  then obtain t where t: "to_string (own_prop d1 ''status'') = Some t"
    by blast
  let ?s1 = "polled c w p t s"
  have once: "poll_once c w pid s = (Inr (own_prop d1 ''status'', d1), ?s1)"
    using pid r d1 t by (rule poll_once_printable)
  have step: "poll_loop c w t0 pid (own_prop d ''status'', d) s
                = poll_loop c w t0 pid (own_prop d1 ''status'', d1) ?s1"
    using nt within once by (simp add: poll_loop_turn)
  have p1: "\<forall>i<length ds. \<exists>r. net w (fetched ?s1 + i) (poll_request c p) = Response r \<and> ok r \<and>
                          res_json r = Inr (ds ! i)"
  proof (intro allI impI)
    fix i assume "i < length ds"
    then have "Suc i < length (d1 # ds)" by simp
    with Cons.prems(1) obtain r' where
      "net w (fetched s + Suc i) (poll_request c p) = Response r' \<and> ok r' \<and>
       res_json r' = Inr ((d1 # ds) ! Suc i)"
      by blast
    then show "\<exists>r. net w (fetched ?s1 + i) (poll_request c p) = Response r \<and> ok r \<and>
                 res_json r = Inr (ds ! i)"
      by auto
  qed
  have p2: "\<forall>i<length ds. non_terminal (own_prop ((d1 # ds) ! i) ''status'')"
  proof (intro allI impI)
    fix i assume "i < length ds"
    then have "Suc i < length (d1 # ds)" by simp
    with Cons.prems(2) have "non_terminal (own_prop ((d # d1 # ds) ! Suc i) ''status'')"
      by blast
    then show "non_terminal (own_prop ((d1 # ds) ! i) ''status'')" by simp
  qed
  have p3: "\<not> non_terminal (own_prop (last (d1 # ds)) ''status'')"
    and p4: "\<not> nullish (last (d1 # ds))"
    and p5: "to_string (own_prop (last (d1 # ds)) ''status'') = Some a"
    using Cons.prems(3,4,5) by simp_all
  have p6: "\<forall>i<length ds. now ?s1 - t0 + (\<Sum>j<i. 2000 + took w (fetched ?s1 + j)) \<le> timeoutMs"
  proof (intro allI impI)
    fix i assume "i < length ds"
    then have "Suc i < length (d1 # ds)" by simp
    with Cons.prems(6) have
      "now s - t0 + (\<Sum>j<Suc i. 2000 + took w (fetched s + j)) \<le> timeoutMs"
      by blast
    moreover have "(\<Sum>j<Suc i. 2000 + took w (fetched s + j))
                     = (2000 + took w (fetched s + 0)) + (\<Sum>j<i. 2000 + took w (fetched s + Suc j))"
      by (rule sum.lessThan_Suc_shift)
    ultimately show "now ?s1 - t0 + (\<Sum>j<i. 2000 + took w (fetched ?s1 + j)) \<le> timeoutMs"
      using Cons.prems(7) by simp
  qed
  have p7: "t0 \<le> now ?s1"
    using Cons.prems(7) by simp
  from Cons.IH [OF p1 p2 p3 p4 p5 p6 p7] obtain s' where
    s': "poll_loop c w t0 pid (own_prop d1 ''status'', d1) ?s1
           = (Inr (own_prop (last (d1 # ds)) ''status'', last (d1 # ds)), s')"
        "trace s' = trace ?s1 @ polls_trace c p (length ds)"
        "requests s' = requests ?s1 @ replicate (length ds) (poll_request c p)"
    by blast
  have "trace s' = trace s @ polls_trace c p (length (d1 # ds))"
    using s'(2) by (simp add: polls_trace_def)
  moreover have "requests s' = requests s @ replicate (length (d1 # ds)) (poll_request c p)"
    using s'(3) by simp
  ultimately show ?case
    using step s'(1) by simp
qed

lemma started_trace:
  "trace (started c w u n s)
     = trace s @ [Console Log [Val (JStr ''Starting Replicate prediction -> endpoint:''),
                               Val (JStr (endpoint c)), Val (JStr ''input keys:''),
                               Val (JArr [JStr ''video''])],
                  Fetch (start_request c u)]"
  by (simp add: started_def)

lemma run_follows:
  assumes sub: "net w (fetched s) (start_request c u) = Response r0" "ok r0" "res_json r0 = Inr d0"
    and pid: "to_string (own_prop d0 ''id'') = Some p"
    and polls: "\<forall>i<length ds. \<exists>r. net w (fetched s + 1 + i) (poll_request c p) = Response r \<and>
                  ok r \<and> res_json r = Inr (ds ! i)"
    and going: "\<forall>i<length ds. non_terminal (own_prop ((d0 # ds) ! i) ''status'')"
    and ended: "\<not> non_terminal (own_prop (last (d0 # ds)) ''status'')"
    and obj: "\<not> nullish (last (d0 # ds))"
    and printable: "to_string (own_prop (last (d0 # ds)) ''status'') = Some a"
    and budget: "\<forall>i<length ds. (\<Sum>j<i. 2000 + took w (fetched s + 1 + j)) \<le> timeoutMs"
  shows "\<exists>s'. runPredictionWithUrl c w u s
                 = (finish (own_prop (last (d0 # ds)) ''status'') (last (d0 # ds)), s') \<and>
              trace s' = trace (started c w u (res_status r0) s) @ polls_trace c p (length ds) \<and>
              requests s' = requests s @ start_request c u # replicate (length ds) (poll_request c p)"
proof -
  let ?s5 = "started c w u (res_status r0) s"
  have d0: "\<not> nullish d0"
  proof (cases ds)
    case Nil
    with obj show ?thesis by simp
  next
    case (Cons d1 ds')
    with going have "non_terminal (own_prop d0 ''status'')" by auto
    then show ?thesis by (rule non_terminal_not_nullish)
  qed
  have run: "runPredictionWithUrl c w u s
      = (case poll_loop c w (now ?s5) (own_prop d0 ''id'') (own_prop d0 ''status'', d0) ?s5 of
           (Inl e, s') \<Rightarrow> (Inl e, s') | (Inr (st, ld), s') \<Rightarrow> (finish st ld, s'))"
    using sub d0 by (simp add: run_submitted)
  have p1: "\<forall>i<length ds. \<exists>r. net w (fetched ?s5 + i) (poll_request c p) = Response r \<and> ok r \<and>
                          res_json r = Inr (ds ! i)"
    using polls by simp
  have p6: "\<forall>i<length ds. now ?s5 - now ?s5 + (\<Sum>j<i. 2000 + took w (fetched ?s5 + j)) \<le> timeoutMs"
    using budget by simp
  from poll_loop_follows [OF pid p1 going ended obj printable p6 order_refl] obtain s' where
    "poll_loop c w (now ?s5) (own_prop d0 ''id'') (own_prop d0 ''status'', d0) ?s5
       = (Inr (own_prop (last (d0 # ds)) ''status'', last (d0 # ds)), s')"
    "trace s' = trace ?s5 @ polls_trace c p (length ds)"
    "requests s' = requests ?s5 @ replicate (length ds) (poll_request c p)"
    by blast
  with run show ?thesis by simp
qed

text \<open>
  C2. Let the submission be accepted, and let the statuses seen from then on, that of
  the submission and then those of the polls, be among \<^verbatim>\<open>queued\<close>, \<^verbatim>\<open>starting\<close>,
  \<^verbatim>\<open>processing\<close> up to a last one that is none of the three, each turn of the loop
  starting within the budget. Then \<^verbatim>\<open>runPredictionWithUrl\<close> polls exactly as long as the
  status is one of the three: it sends the submission and then one poll, after a pause
  of two seconds, for each status but the last, and nothing else. If the last status is
  \<^verbatim>\<open>succeeded\<close> it returns the payload that carried it, the last one read; if not, it throws
  an error whose message carries that status and the error detail of the last payload,
  or \<^verbatim>\<open>unknown\<close> without one. With no poll answer at all this is the submission that is
  answered \<^verbatim>\<open>succeeded\<close>, or another final status, at once: no poll is sent.
\<close>

theorem polling_goes_on_while_non_terminal:
  assumes "net w (fetched s) (start_request c u) = Response r0" and "ok r0"
    and "res_json r0 = Inr d0" and "to_string (own_prop d0 ''id'') = Some p"
    and "\<forall>i<length ds. \<exists>r. net w (fetched s + 1 + i) (poll_request c p) = Response r \<and>
            ok r \<and> res_json r = Inr (ds ! i)"
    and "\<forall>i<length ds. non_terminal (own_prop ((d0 # ds) ! i) ''status'')"
    and "\<not> non_terminal (own_prop (last (d0 # ds)) ''status'')"
    and "\<not> nullish (last (d0 # ds))"
    and "to_string (own_prop (last (d0 # ds)) ''status'') = Some a"
    and "\<forall>i<length ds. (\<Sum>j<i. 2000 + took w (fetched s + 1 + j)) \<le> timeoutMs"
  shows "requests (snd (runPredictionWithUrl c w u s))
           = requests s @ start_request c u # replicate (length ds) (poll_request c p) \<and>
         trace (snd (runPredictionWithUrl c w u s))
           = trace (started c w u (res_status r0) s) @ polls_trace c p (length ds) \<and>
         (own_prop (last (d0 # ds)) ''status'' = JStr ''succeeded'' \<longrightarrow>
            fst (runPredictionWithUrl c w u s) = Inr (last (d0 # ds))) \<and>
         (own_prop (last (d0 # ds)) ''status'' \<noteq> JStr ''succeeded'' \<and>
          own_prop (last (d0 # ds)) ''error'' = JStr detail \<and> detail \<noteq> [] \<longrightarrow>
            fst (runPredictionWithUrl c w u s)
              = Inl (Error (''Prediction ended with status: '' @ a @ '', error: '' @ detail))) \<and>
         (own_prop (last (d0 # ds)) ''status'' \<noteq> JStr ''succeeded'' \<and>
          \<not> truthy (own_prop (last (d0 # ds)) ''error'') \<longrightarrow>
            fst (runPredictionWithUrl c w u s)
              = Inl (Error (''Prediction ended with status: '' @ a @ '', error: unknown'')))"
proof -
  from run_follows [OF assms] obtain s' where
    run: "runPredictionWithUrl c w u s
            = (finish (own_prop (last (d0 # ds)) ''status'') (last (d0 # ds)), s')"
    and "trace s' = trace (started c w u (res_status r0) s) @ polls_trace c p (length ds)"
    and "requests s' = requests s @ start_request c u # replicate (length ds) (poll_request c p)"
    by blast
  then show ?thesis
    using assms(9) by (auto simp: finish_def or_else_def)
qed

theorem polling_goes_on_while_non_terminal_witness:
  "requests (snd (runPredictionWithUrl (versioned ''abc123'') fails_later
                    ''https://example.com/in.mp4'' fresh))
     = [start_request (versioned ''abc123'') ''https://example.com/in.mp4'',
        poll_request (versioned ''abc123'') ''p1'', poll_request (versioned ''abc123'') ''p1''] \<and>
   fst (runPredictionWithUrl (versioned ''abc123'') fails_later ''https://example.com/in.mp4'' fresh)
     = Inl (Error ''Prediction ended with status: failed, error: CUDA out of memory'') \<and>
   requests (snd (runPredictionWithUrl (versioned ''abc123'') done_at_once
                    ''https://example.com/in.mp4'' fresh))
     = [start_request (versioned ''abc123'') ''https://example.com/in.mp4''] \<and>
   fst (runPredictionWithUrl (versioned ''abc123'') done_at_once ''https://example.com/in.mp4'' fresh)
     = Inr finished_job"
proof -
  let ?c = "versioned ''abc123''" and ?u = "''https://example.com/in.mp4''"
  let ?r0 = "\<lparr>res_status = 201, res_text = Inr ''{...}'', res_json = Inr (job ''starting'')\<rparr>"
  let ?q0 = "\<lparr>res_status = 201, res_text = Inr ''{...}'', res_json = Inr finished_job\<rparr>"
  let ?ds = "[job ''processing'', failed_job]"
  have f: "fetched fresh = 0" "requests fresh = []"
    by (simp_all add: fresh_def requests_def)
  have n0: "net fails_later (fetched fresh) (start_request ?c ?u) = Response ?r0"
    by (simp add: f fails_later_def scripted_def json_body_def)
  have k0: "ok ?r0" and j0: "res_json ?r0 = Inr (job ''starting'')"
    by (simp_all add: ok_def)
  have p: "to_string (own_prop (job ''starting'') ''id'') = Some ''p1''"
    by (simp add: job_def)
  have polls: "\<forall>i<length ?ds. \<exists>r. net fails_later (fetched fresh + 1 + i)
                    (poll_request ?c ''p1'') = Response r \<and> ok r \<and> res_json r = Inr (?ds ! i)"
    by (auto simp: f fails_later_def scripted_def json_body_def ok_def less_Suc_eq)
  have going: "\<forall>i<length ?ds. non_terminal (own_prop ((job ''starting'' # ?ds) ! i) ''status'')"
    by (auto simp: job_def non_terminal_def less_Suc_eq)
  have ended: "\<not> non_terminal (own_prop (last (job ''starting'' # ?ds)) ''status'')"
    and obj: "\<not> nullish (last (job ''starting'' # ?ds))"
    and printable: "to_string (own_prop (last (job ''starting'' # ?ds)) ''status'') = Some ''failed''"
    by (simp_all add: failed_job_def non_terminal_def)
  have budget: "\<forall>i<length ?ds. (\<Sum>j<i. 2000 + took fails_later (fetched fresh + 1 + j)) \<le> timeoutMs"
    by (auto simp: fails_later_def scripted_def timeoutMs_def less_Suc_eq)
  have e: "own_prop (last (job ''starting'' # ?ds)) ''status'' \<noteq> JStr ''succeeded''"
    "own_prop (last (job ''starting'' # ?ds)) ''error'' = JStr ''CUDA out of memory''"
    by (simp_all add: failed_job_def)
  from polling_goes_on_while_non_terminal
         [OF n0 k0 j0 p polls going ended obj printable budget, of "''CUDA out of memory''"] e
  have a: "requests (snd (runPredictionWithUrl ?c fails_later ?u fresh))
             = [start_request ?c ?u, poll_request ?c ''p1'', poll_request ?c ''p1''] \<and>
           fst (runPredictionWithUrl ?c fails_later ?u fresh)
             = Inl (Error ''Prediction ended with status: failed, error: CUDA out of memory'')"
    by (simp add: f numeral_2_eq_2)
  have m0: "net done_at_once (fetched fresh) (start_request ?c ?u) = Response ?q0"
    by (simp add: f done_at_once_def scripted_def json_body_def)
  have l0: "ok ?q0" and i0: "res_json ?q0 = Inr finished_job"
    by (simp_all add: ok_def)
  have q: "to_string (own_prop finished_job ''id'') = Some ''p1''"
    and ended0: "\<not> non_terminal (own_prop (last [finished_job]) ''status'')"
    and obj0: "\<not> nullish (last [finished_job])"
    and printable0: "to_string (own_prop (last [finished_job]) ''status'') = Some ''succeeded''"
    and s0: "own_prop (last [finished_job]) ''status'' = JStr ''succeeded''"
    by (simp_all add: finished_job_def non_terminal_def)
  from polling_goes_on_while_non_terminal
         [of done_at_once fresh ?c ?u ?q0 finished_job "''p1''" "[]" "''succeeded''" "[]",
          OF m0 l0 i0 q _ _ ended0 obj0 printable0] s0
  have "requests (snd (runPredictionWithUrl ?c done_at_once ?u fresh)) = [start_request ?c ?u] \<and>
        fst (runPredictionWithUrl ?c done_at_once ?u fresh) = Inr finished_job"
    by (simp add: f)
  with a show ?thesis by blast
qed

section \<open>The time-out\<close>

lemma poll_loop_runs_out:
  assumes pid: "to_string pid = Some p"
    and polls: "\<forall>i\<ge>n0. \<exists>r d. net w i (poll_request c p) = Response r \<and> ok r \<and>
                   res_json r = Inr d \<and> non_terminal (own_prop d ''status'')"
  shows "non_terminal (fst sd) \<Longrightarrow> n0 \<le> fetched s \<Longrightarrow> t0 \<le> now s \<Longrightarrow>
     fst (poll_loop c w t0 pid sd s) = Inl (Error ''Prediction timed out.'') \<and>
     (\<exists>n. requests (snd (poll_loop c w t0 pid sd s)) = requests s @ replicate n (poll_request c p) \<and>
          (n = 0 \<or> now s - t0 + 2000 * (n - 1) \<le> timeoutMs)) \<and>
     t0 + timeoutMs < now (snd (poll_loop c w t0 pid sd s))"
  using pid polls
proof (induction c w t0 pid sd s rule: poll_loop.induct)
  case (1 c w startedAt predictionId status lastData s)
  from "1.prems" have nt: "non_terminal status" by simp
  show ?case
  proof (cases "timeoutMs < now s - startedAt")
    case True
    with nt have "poll_loop c w startedAt predictionId (status, lastData) s
       = (Inl (Error ''Prediction timed out.''), onLog ''error: timed out'' s)"
      by (rule poll_loop_late)
    moreover have "requests (onLog ''error: timed out'' s) = requests s"
      "now (onLog ''error: timed out'' s) = now s"
      by (simp_all add: onLog_def requests_def)
    ultimately show ?thesis
      using True by (auto intro: exI [of _ 0])
  next
    case False
    from "1.prems" obtain r d where
      r: "net w (fetched s) (poll_request c p) = Response r" "ok r" "res_json r = Inr d"
        "non_terminal (own_prop d ''status'')"
      by blast
    from non_terminal_string [OF r(4)] obtain t where t: "own_prop d ''status'' = JStr t"
      by blast
    have once: "poll_once c w predictionId s = (Inr (JStr t, d), polled c w p t s)"
      using "1.prems"(4) r(1-3) t by (rule poll_once_answered)
    have step: "poll_loop c w startedAt predictionId (status, lastData) s
                  = poll_loop c w startedAt predictionId (JStr t, d) (polled c w p t s)"
      using nt False once by (simp add: poll_loop_turn)
    have "non_terminal (fst (JStr t, d))"
      using r(4) t by simp
    moreover have "n0 \<le> fetched (polled c w p t s)"
      using "1.prems"(2) by simp
    moreover have "startedAt \<le> now (polled c w p t s)"
      using "1.prems"(3) by simp
    ultimately have ih:
      "fst (poll_loop c w startedAt predictionId (JStr t, d) (polled c w p t s))
         = Inl (Error ''Prediction timed out.'') \<and>
       (\<exists>n. requests (snd (poll_loop c w startedAt predictionId (JStr t, d) (polled c w p t s)))
              = requests (polled c w p t s) @ replicate n (poll_request c p) \<and>
            (n = 0 \<or> now (polled c w p t s) - startedAt + 2000 * (n - 1) \<le> timeoutMs)) \<and>
       startedAt + timeoutMs
         < now (snd (poll_loop c w startedAt predictionId (JStr t, d) (polled c w p t s)))"
      using "1.IH" [OF nt False once [symmetric] refl] "1.prems"(4,5) by blast
    then obtain n where
      n: "requests (snd (poll_loop c w startedAt predictionId (JStr t, d) (polled c w p t s)))
              = requests (polled c w p t s) @ replicate n (poll_request c p)"
         "n = 0 \<or> now (polled c w p t s) - startedAt + 2000 * (n - 1) \<le> timeoutMs"
      by blast
    have "requests (snd (poll_loop c w startedAt predictionId (status, lastData) s))
            = requests s @ replicate (Suc n) (poll_request c p)"
      unfolding step n(1) by simp
    moreover have "Suc n = 0 \<or> now s - startedAt + 2000 * (Suc n - 1) \<le> timeoutMs"
    proof (cases n)
      case 0
      with False show ?thesis by simp
    next
      case (Suc m)
      with n(2) "1.prems"(3) show ?thesis by simp
    qed
    ultimately show ?thesis
      using ih unfolding step by blast
  qed
qed

text \<open>
  C3. Let the submission be accepted with a status among \<^verbatim>\<open>queued\<close>, \<^verbatim>\<open>starting\<close>,
  \<^verbatim>\<open>processing\<close>, and let every poll be answered with such a status. Then the call
  throws \<^verbatim>\<open>Prediction timed out.\<close>; what it has sent is the submission and then polls
  of that prediction only, at most 301 of them, so no request follows the time-out and
  none cancels the prediction; and it ends more than ten minutes after the answer to
  the submission came in.
\<close>

theorem prediction_times_out:
  assumes "net w (fetched s) (start_request c u) = Response r0" and "ok r0"
    and "res_json r0 = Inr d0" and "to_string (own_prop d0 ''id'') = Some p"
    and "non_terminal (own_prop d0 ''status'')"
    and "\<forall>i>fetched s. \<exists>r d. net w i (poll_request c p) = Response r \<and> ok r \<and>
            res_json r = Inr d \<and> non_terminal (own_prop d ''status'')"
  shows "fst (runPredictionWithUrl c w u s) = Inl (Error ''Prediction timed out.'') \<and>
         (\<exists>n\<le>301. requests (snd (runPredictionWithUrl c w u s))
                      = requests s @ start_request c u # replicate n (poll_request c p)) \<and>
         now s + took w (fetched s) + 10 * 60 * 1000 < now (snd (runPredictionWithUrl c w u s))"
proof -
  let ?s5 = "started c w u (res_status r0) s"
  let ?l = "poll_loop c w (now ?s5) (own_prop d0 ''id'') (own_prop d0 ''status'', d0) ?s5"
  have "\<not> nullish d0"
    using assms(5) own_prop_nullish [of d0 "''status''"] by (auto simp: non_terminal_def)
  then have run: "runPredictionWithUrl c w u s
      = (case ?l of (Inl e, s') \<Rightarrow> (Inl e, s') | (Inr (st, ld), s') \<Rightarrow> (finish st ld, s'))"
    using assms(1-3) by (simp add: run_submitted)
  have polls: "\<forall>i\<ge>Suc (fetched s). \<exists>r d. net w i (poll_request c p) = Response r \<and> ok r \<and>
            res_json r = Inr d \<and> non_terminal (own_prop d ''status'')"
    using assms(6) by (simp add: Suc_le_eq)
  have "fst ?l = Inl (Error ''Prediction timed out.'') \<and>
     (\<exists>n. requests (snd ?l) = requests ?s5 @ replicate n (poll_request c p) \<and>
          (n = 0 \<or> now ?s5 - now ?s5 + 2000 * (n - 1) \<le> timeoutMs)) \<and>
     now ?s5 + timeoutMs < now (snd ?l)"
    using poll_loop_runs_out [OF assms(4) polls, of "(own_prop d0 ''status'', d0)" ?s5 "now ?s5"]
      assms(5) by simp
  then obtain n where l: "fst ?l = Inl (Error ''Prediction timed out.'')"
    "requests (snd ?l) = requests ?s5 @ replicate n (poll_request c p)"
    "n = 0 \<or> 2000 * (n - 1) \<le> timeoutMs" "now ?s5 + timeoutMs < now (snd ?l)"
    by auto
  from l(3) have "n \<le> 301"
    by (auto simp: timeoutMs_def)
  moreover from l(1) run have "runPredictionWithUrl c w u s = (Inl (Error ''Prediction timed out.''), snd ?l)"
    by (cases ?l) auto
  ultimately show ?thesis
    using l(2,4) by (auto simp: timeoutMs_def)
qed

theorem prediction_times_out_witness:
  "fst (runPredictionWithUrl (versioned ''abc123'') never_ready ''https://example.com/in.mp4'' fresh)
     = Inl (Error ''Prediction timed out.'') \<and>
   (\<exists>n\<le>301. requests (snd (runPredictionWithUrl (versioned ''abc123'') never_ready
                             ''https://example.com/in.mp4'' fresh))
                = start_request (versioned ''abc123'') ''https://example.com/in.mp4''
                  # replicate n (poll_request (versioned ''abc123'') ''p1'')) \<and>
   600000 < now (snd (runPredictionWithUrl (versioned ''abc123'') never_ready
                        ''https://example.com/in.mp4'' fresh))"
proof -
  let ?r = "\<lparr>res_status = 200, res_text = Inr ''{...}'', res_json = Inr (job ''processing'')\<rparr>"
  have f: "requests fresh = []" "fetched fresh = 0" "now fresh = 0"
    by (simp_all add: fresh_def requests_def)
  have n: "net never_ready i q = Response ?r" for i q
    by (simp add: never_ready_def json_body_def)
  have "ok ?r" "to_string (own_prop (job ''processing'') ''id'') = Some ''p1''"
    "non_terminal (own_prop (job ''processing'') ''status'')" "took never_ready 0 = 0"
    by (simp_all add: ok_def job_def non_terminal_def never_ready_def)
  then show ?thesis
    using prediction_times_out
            [of never_ready fresh "versioned ''abc123''" "''https://example.com/in.mp4''" ?r
                "job ''processing''" "''p1''"] n
    by (simp add: f)
qed

section \<open>Two polls, then the payload\<close>

lemma run_two_polls:
  assumes "net w (fetched s) (start_request c u) = Response r0" and "ok r0"
    and "res_json r0 = Inr d0" and "to_string (own_prop d0 ''id'') = Some p"
    and "own_prop d0 ''status'' = JStr ''processing''"
    and "net w (fetched s + 1) (poll_request c p) = Response r1" and "ok r1"
    and "res_json r1 = Inr d1" and "own_prop d1 ''status'' = JStr ''processing''"
    and "net w (fetched s + 2) (poll_request c p) = Response r2" and "ok r2"
    and "res_json r2 = Inr d2" and "own_prop d2 ''status'' = JStr ''succeeded''"
    and "2000 + took w (fetched s + 1) \<le> timeoutMs"
  shows "runPredictionWithUrl c w u s
           = (Inr d2, polled c w p ''succeeded''
                        (polled c w p ''processing'' (started c w u (res_status r0) s)))"
proof -
  let ?s0 = "started c w u (res_status r0) s"
  let ?s1 = "polled c w p ''processing'' ?s0"
  let ?s2 = "polled c w p ''succeeded'' ?s1"
  let ?pid = "own_prop d0 ''id''"
  have nt: "non_terminal (JStr ''processing'')" "\<not> non_terminal (JStr ''succeeded'')"
    by (simp_all add: non_terminal_def)
  have "\<not> nullish d0"
    using assms(5) own_prop_nullish [of d0 "''status''"] by auto
  then have run: "runPredictionWithUrl c w u s
      = (case poll_loop c w (now ?s0) ?pid (own_prop d0 ''status'', d0) ?s0 of
           (Inl e, s') \<Rightarrow> (Inl e, s') | (Inr (st, ld), s') \<Rightarrow> (finish st ld, s'))"
    using assms(1-3) by (simp add: run_submitted)
  have o1: "poll_once c w ?pid ?s0 = (Inr (JStr ''processing'', d1), ?s1)"
    using assms(4,6-9) by (intro poll_once_answered) simp_all
  have o2: "poll_once c w ?pid ?s1 = (Inr (JStr ''succeeded'', d2), ?s2)"
    using assms(4,10-13) by (intro poll_once_answered) simp_all
  have "poll_loop c w (now ?s0) ?pid (own_prop d0 ''status'', d0) ?s0
          = poll_loop c w (now ?s0) ?pid (JStr ''processing'', d1) ?s1"
    using assms(5) nt(1) o1 by (simp add: poll_loop_turn)
  also have "\<dots> = poll_loop c w (now ?s0) ?pid (JStr ''succeeded'', d2) ?s2"
    using nt(1) o2 assms(14) by (simp add: poll_loop_turn)
  also have "\<dots> = (Inr (JStr ''succeeded'', d2), ?s2)"
    using nt(2) by (rule poll_loop_done)
  finally show ?thesis
    using run by (simp add: finish_def)
qed

text \<open>
  C7. Let the statuses seen be \<^verbatim>\<open>processing\<close>, \<^verbatim>\<open>processing\<close>, \<^verbatim>\<open>succeeded\<close>: the submission
  is accepted as \<^verbatim>\<open>processing\<close>, the first poll answers \<^verbatim>\<open>processing\<close> and the second
  \<^verbatim>\<open>succeeded\<close>, the first poll and its pause taking no more than the budget. Then the call
  sends exactly two polls after the submission, each after a pause of two seconds, and
  returns the payload of the second answer, with its output.
\<close>

theorem two_polls_then_payload:
  assumes "net w (fetched s) (start_request c u) = Response r0" and "ok r0"
    and "res_json r0 = Inr d0" and "to_string (own_prop d0 ''id'') = Some p"
    and "own_prop d0 ''status'' = JStr ''processing''"
    and "net w (fetched s + 1) (poll_request c p) = Response r1" and "ok r1"
    and "res_json r1 = Inr d1" and "own_prop d1 ''status'' = JStr ''processing''"
    and "net w (fetched s + 2) (poll_request c p) = Response r2" and "ok r2"
    and "res_json r2 = Inr d2" and "own_prop d2 ''status'' = JStr ''succeeded''"
    and "2000 + took w (fetched s + 1) \<le> timeoutMs"
  shows "fst (runPredictionWithUrl c w u s) = Inr d2 \<and>
         trace (snd (runPredictionWithUrl c w u s))
           = trace (started c w u (res_status r0) s)
             @ [Sleep 2000, Fetch (poll_request c p), Sleep 2000, Fetch (poll_request c p)] \<and>
         requests (snd (runPredictionWithUrl c w u s))
           = requests s @ [start_request c u, poll_request c p, poll_request c p]"
  using run_two_polls [OF assms] by simp

theorem two_polls_then_payload_witness:
  "fst (runPredictionWithUrl (versioned ''abc123'') two_polls ''https://example.com/in.mp4'' fresh)
     = Inr finished_job \<and>
   own_prop finished_job ''output'' = JStr ''https://cdn.example.com/out.mp4'' \<and>
   trace (snd (runPredictionWithUrl (versioned ''abc123'') two_polls
                 ''https://example.com/in.mp4'' fresh))
     = trace (started (versioned ''abc123'') two_polls ''https://example.com/in.mp4'' 201 fresh)
       @ [Sleep 2000, Fetch (poll_request (versioned ''abc123'') ''p1''),
          Sleep 2000, Fetch (poll_request (versioned ''abc123'') ''p1'')] \<and>
   requests (snd (runPredictionWithUrl (versioned ''abc123'') two_polls
                    ''https://example.com/in.mp4'' fresh))
     = [start_request (versioned ''abc123'') ''https://example.com/in.mp4'',
        poll_request (versioned ''abc123'') ''p1'', poll_request (versioned ''abc123'') ''p1'']"
proof -
  let ?c = "versioned ''abc123''" and ?u = "''https://example.com/in.mp4''"
  let ?r0 = "\<lparr>res_status = 201, res_text = Inr ''{...}'', res_json = Inr (job ''processing'')\<rparr>"
  let ?r1 = "\<lparr>res_status = 200, res_text = Inr ''{...}'', res_json = Inr (job ''processing'')\<rparr>"
  let ?r2 = "\<lparr>res_status = 200, res_text = Inr ''{...}'', res_json = Inr finished_job\<rparr>"
  have f: "fetched fresh = 0" "requests fresh = []"
    by (simp_all add: fresh_def requests_def)
  have n0: "net two_polls (fetched fresh) (start_request ?c ?u) = Response ?r0"
    and n1: "net two_polls (fetched fresh + 1) (poll_request ?c ''p1'') = Response ?r1"
    and n2: "net two_polls (fetched fresh + 2) (poll_request ?c ''p1'') = Response ?r2"
    by (simp_all add: f two_polls_def scripted_def json_body_def)
  have k0: "ok ?r0" and k1: "ok ?r1" and k2: "ok ?r2"
    by (simp_all add: ok_def)
  have j0: "res_json ?r0 = Inr (job ''processing'')" and j1: "res_json ?r1 = Inr (job ''processing'')"
    and j2: "res_json ?r2 = Inr finished_job"
    by simp_all
  have p: "to_string (own_prop (job ''processing'') ''id'') = Some ''p1''"
    and s1: "own_prop (job ''processing'') ''status'' = JStr ''processing''"
    and s2: "own_prop finished_job ''status'' = JStr ''succeeded''"
    and out: "own_prop finished_job ''output'' = JStr ''https://cdn.example.com/out.mp4''"
    by (simp_all add: job_def finished_job_def)
  have t: "2000 + took two_polls (fetched fresh + 1) \<le> timeoutMs"
    by (simp add: two_polls_def scripted_def timeoutMs_def)
  have c: "res_status ?r0 = 201"
    by simp
  from two_polls_then_payload [OF n0 k0 j0 p s1 n1 k1 j1 s1 n2 k2 j2 s2 t] out
  show ?thesis
    unfolding c f by simp
qed

end
